theory Spec2Isabelle
  imports Main "HOL-Library.Word" "HOL-Library.Multiset"
begin

section \<open>Strings and slices\<close>

text \<open>
  A Go \<open>string\<close> is a sequence of bytes and \<open>len\<close> counts bytes; it is modelled as
  \<^typ>\<open>string\<close>, whose elements are 8-bit characters. Go's \<open>int\<close> is the 64-bit
  signed integer of the target platform, modelled as \<^typ>\<open>64 word\<close> read with
  \<^const>\<open>sint\<close>. The slice expression \<open>s[:hi]\<close> on a string panics unless
  \<open>0 \<le> hi \<le> len(s)\<close>.
\<close>

datatype panic = SliceBoundsOutOfRange

definition slice_to :: "string \<Rightarrow> int \<Rightarrow> panic + string" where
  "slice_to s hi =
     (if 0 \<le> hi \<and> hi \<le> int (length s) then Inr (take (nat hi) s)
      else Inl SliceBoundsOutOfRange)"

subsection \<open>TruncateString (fetchers package, file of the GitHub fetcher)\<close>

text \<open>
  \<^verbatim>\<open>
  func TruncateString(s string, maxLength int) string {
      if len(s) <= maxLength { return s }
      return strings.TrimSpace(s[:maxLength-3]) + "..."
  }
  \<close>
  \<open>strings.TrimSpace\<close> belongs to the Go standard library, not to this repository; it is
  a parameter of the model. The theorems below only use that trimming never makes a
  string longer. \<open>trimAsciiSpace\<close> is the instance that trims the ASCII white space
  characters, used for concrete evaluation.
\<close>

definition TruncateString :: "(string \<Rightarrow> string) \<Rightarrow> string \<Rightarrow> 64 word \<Rightarrow> panic + string" where
  "TruncateString TrimSpace s maxLength =
     (if int (length s) \<le> sint maxLength then Inr s
      else (case slice_to s (sint (maxLength - 3)) of
              Inl p \<Rightarrow> Inl p
            | Inr t \<Rightarrow> Inr (TrimSpace t @ ''...'')))"

definition isAsciiSpace :: "char \<Rightarrow> bool" where
  "isAsciiSpace c = (c \<in> set [CHR 0x09, CHR 0x0A, CHR 0x0B, CHR 0x0C, CHR 0x0D, CHR '' ''])"

definition trimAsciiSpace :: "string \<Rightarrow> string" where
  "trimAsciiSpace s = rev (dropWhile isAsciiSpace (rev (dropWhile isAsciiSpace s)))"

section \<open>Data model (internal/models/result.go and the protobuf messages)\<close>

text \<open>
  Field names of different structs that coincide in the source carry the struct's
  initials here: \<open>sr_\<close> for \<open>models.SearchResult\<close>, \<open>pb_\<close> for \<open>pb.Result\<close>,
  \<open>fr_\<close> for \<open>models.FetchResult\<close>. A Go \<open>map[string]string\<close> is a map
  \<^typ>\<open>string \<rightharpoonup> string\<close>; \<open>int64\<close> and \<open>int32\<close> are words.
\<close>

record SearchResult =
  sr_Platform :: string
  sr_Title :: string
  sr_Snippet :: string
  sr_URL :: string
  sr_Timestamp :: "64 word"
  sr_Metadata :: "string \<rightharpoonup> string"

record pb_Result =
  pb_Platform :: string
  pb_Title :: string
  pb_Snippet :: string
  pb_Url :: string
  pb_Timestamp :: "64 word"
  pb_Metadata :: "string \<rightharpoonup> string"

definition ToProto :: "SearchResult \<Rightarrow> pb_Result" where
  "ToProto r =
     \<lparr>pb_Platform = sr_Platform r, pb_Title = sr_Title r, pb_Snippet = sr_Snippet r,
      pb_Url = sr_URL r, pb_Timestamp = sr_Timestamp r, pb_Metadata = sr_Metadata r\<rparr>"

text \<open>
  \<open>FetchResult.Error\<close> is a Go \<open>error\<close>: \<open>None\<close> is \<open>nil\<close>, \<open>Some msg\<close> an error
  with that message. Durations and instants are counted in milliseconds.
\<close>

record FetchResult =
  fr_Platform :: string
  fr_Results :: "SearchResult list"
  fr_Error :: "string option"
  fr_Duration :: nat
  fr_TimedOut :: bool

definition NewFetchResult :: "string \<Rightarrow> FetchResult" where
  "NewFetchResult platform =
     \<lparr>fr_Platform = platform, fr_Results = [], fr_Error = None, fr_Duration = 0,
      fr_TimedOut = False\<rparr>"

record SearchRequest =
  Query :: string
  MaxResults :: "32 word"
  Platforms :: "string list"

record ResponseMetadata =
  ResponseTimeMs :: "32 word"
  PlatformsQueried :: "32 word"

record SearchResponse =
  Results :: "pb_Result list"
  TotalCount :: "32 word"
  PlatformsSuccess :: "string list"
  PlatformsTimeout :: "string list"
  PlatformsError :: "string list"
  Metadata :: ResponseMetadata

section \<open>Configuration (internal/config/config.go)\<close>

text \<open>Only the fields that the handlers and the fetcher constructors read.\<close>

record ServerConfig =
  ServerTimeout :: nat
  PerAPITimeout :: nat

record GitHubConfig =
  gh_APIToken :: string
  gh_BaseURL :: string

record StackOverflowConfig =
  so_APIKey :: string
  so_BaseURL :: string

record RedditConfig =
  rd_ClientID :: string
  rd_ClientSecret :: string
  rd_UserAgent :: string
  rd_BaseURL :: string

record PerformanceConfig =
  MaxResultsPerPlatform :: "64 word"

record Config =
  Server :: ServerConfig
  GitHub :: GitHubConfig
  StackOverflow :: StackOverflowConfig
  Reddit :: RedditConfig
  Performance :: PerformanceConfig

section \<open>Contexts (package context of the Go library)\<close>

text \<open>
  Instants and durations are counted in milliseconds, instants from the start of the
  request. Of a \<open>context.Context\<close> the model keeps its deadline, \<open>None\<close> when it has
  none. \<open>context.WithTimeout(parent, timeout)\<close>, called at the instant \<open>now\<close>, gives a
  context whose deadline is \<open>now + timeout\<close>, or the parent's deadline when that is
  earlier: a child never outlives its parent.
\<close>

record Context =
  Deadline :: "nat option"

definition Background :: Context where
  "Background = \<lparr>Deadline = None\<rparr>"

definition WithTimeout :: "Context \<Rightarrow> nat \<Rightarrow> nat \<Rightarrow> Context" where
  "WithTimeout parent now timeout =
     \<lparr>Deadline = Some (case Deadline parent of
                         None \<Rightarrow> now + timeout
                       | Some d \<Rightarrow> min d (now + timeout))\<rparr>"

section \<open>Fetchers (internal/fetchers)\<close>

text \<open>
  The \<open>Fetcher\<close> interface has three implementations; each constructor keeps the
  values its \<open>New...Fetcher\<close> function stores. \<open>Name\<close> is the method of the same name.
\<close>

datatype Fetcher =
    GitHubFetcher string string
  | StackOverflowFetcher string string
  | RedditFetcher string string string string

fun Name :: "Fetcher \<Rightarrow> string" where
  "Name (GitHubFetcher apiToken baseURL) = ''github''"
| "Name (StackOverflowFetcher apiKey baseURL) = ''stackoverflow''"
| "Name (RedditFetcher clientID clientSecret userAgent baseURL) = ''reddit''"

text \<open>
  What a call of the interface method \<open>Fetch(ctx, query, maxResults)\<close> does is not
  fixed by the interface. One call either returns, at some instant, a pair
  \<open>(results, err)\<close>, or never returns. \<open>ctx.Err()\<close> of the context it was given,
  read right after \<open>Fetch\<close> has returned, is part of the same observation: \<open>None\<close>
  for \<open>nil\<close>.
\<close>

datatype ctx_error = Canceled | DeadlineExceeded

datatype fetch_run =
    Returns nat "SearchResult list" "string option" "ctx_error option"
  | Hangs

text \<open>
  A world answers the call of \<open>Fetch\<close> made by the \<open>i\<close>-th task launched by a request,
  given the receiver and the arguments \<open>ctx\<close>, \<open>query\<close> and \<open>maxResults\<close>. The
  handler is modelled against any world, so that what is proved of it holds for every
  implementation of the interface.
\<close>

type_synonym world = "Context \<Rightarrow> nat \<Rightarrow> Fetcher \<Rightarrow> string \<Rightarrow> 64 word \<Rightarrow> fetch_run"

subsection \<open>The Fetch methods of the three fetchers\<close>

text \<open>
  \<^verbatim>\<open>
  client: &http.Client{ Timeout: 10 * time.Second }
  ...
  req, err := http.NewRequestWithContext(ctx, http.MethodGet, searchURL, nil)
  ...
  resp, err := g.client.Do(req)
  if err != nil {
      return nil, fmt.Errorf("failed to execute request: %w", err)
  }
  \<close>
  All three \<open>Fetch\<close> methods are of this shape: the request carries \<open>ctx\<close>, and the
  client abandons it, while connecting, waiting for the response or reading its body,
  as soon as \<open>ctx\<close> is done or its own timeout of 10 s has passed, whichever is first.
  What is outside the program is the exchange with the remote API: left alone it
  would complete at some instant, with the pair \<open>(results, err)\<close> that \<open>Fetch\<close> makes of
  it (\<open>err\<close> for a transport error, a status other than 200 or a body that does not
  decode), or it would never complete. \<open>Fetch\<close> returns what the exchange gives when
  that completes before the cut-off, and otherwise returns at the cut-off with the
  error of \<open>client.Do\<close> wrapped (the URL in its text is left out here); \<open>ctx.Err()\<close> is
  then \<open>DeadlineExceeded\<close> when it was the context's deadline that passed. The
  caller cancelling the incoming context is not modelled at this level.
\<close>

datatype exchange =
    Completes nat "SearchResult list" "string option"
  | NoAnswer

type_synonym upstream = "nat \<Rightarrow> Fetcher \<Rightarrow> string \<Rightarrow> 64 word \<Rightarrow> exchange"

definition cutoff :: "Context \<Rightarrow> nat" where
  "cutoff ctx = (case Deadline ctx of None \<Rightarrow> 10000 | Some d \<Rightarrow> min d 10000)"

definition cut_off :: "Context \<Rightarrow> fetch_run" where
  "cut_off ctx =
     (if Deadline ctx = Some (cutoff ctx)
      then Returns (cutoff ctx) []
             (Some ''failed to execute request: context deadline exceeded'')
             (Some DeadlineExceeded)
      else Returns (cutoff ctx) []
             (Some ''failed to execute request: Client.Timeout exceeded'') None)"

definition http_Fetch :: "Context \<Rightarrow> exchange \<Rightarrow> fetch_run" where
  "http_Fetch ctx x =
     (case x of
        Completes t results err \<Rightarrow>
          (if t < cutoff ctx then Returns t results err None else cut_off ctx)
      | NoAnswer \<Rightarrow> cut_off ctx)"

definition http_world :: "upstream \<Rightarrow> world" where
  "http_world up ctx i fetcher query maxResults = http_Fetch ctx (up i fetcher query maxResults)"

section \<open>The search handler (internal/handlers/search.go)\<close>

record SearchHandler =
  fetchers :: "string \<rightharpoonup> Fetcher"
  config :: Config

definition NewSearchHandler :: "Config \<Rightarrow> SearchHandler" where
  "NewSearchHandler cfg =
     \<lparr>fetchers = Map.empty
        (''github'' \<mapsto> GitHubFetcher (gh_APIToken (GitHub cfg)) (gh_BaseURL (GitHub cfg)),
         ''stackoverflow'' \<mapsto>
            StackOverflowFetcher (so_APIKey (StackOverflow cfg)) (so_BaseURL (StackOverflow cfg)),
         ''reddit'' \<mapsto>
            RedditFetcher (rd_ClientID (Reddit cfg)) (rd_ClientSecret (Reddit cfg))
              (rd_UserAgent (Reddit cfg)) (rd_BaseURL (Reddit cfg))),
      config = cfg\<rparr>"

subsection \<open>Fan-out\<close>

text \<open>
  The platforms to query (lines 52--56) and the result cap (lines 59--62), where
  \<open>int(req.MaxResults)\<close> sign-extends the \<open>int32\<close>.
\<close>

definition platforms_of :: "SearchRequest \<Rightarrow> string list" where
  "platforms_of req =
     (if length (Platforms req) = 0 then [''github'', ''stackoverflow'', ''reddit'']
      else Platforms req)"

definition maxResults_of :: "SearchHandler \<Rightarrow> SearchRequest \<Rightarrow> 64 word" where
  "maxResults_of h req =
     (let maxResults = (scast (MaxResults req) :: 64 word)
      in if sint maxResults \<le> 0 \<or> sint maxResults > 100
         then MaxResultsPerPlatform (Performance (config h))
         else maxResults)"

text \<open>
  A task is one \<open>go h.fetchFromPlatform(ctx, fetcher, req.Query, maxResults, ...)\<close>
  statement executed: the goroutine's fetcher and arguments. The launching loop
  (lines 71--80) skips a platform that is not a key of the registry.
\<close>

record task =
  t_fetcher :: Fetcher
  t_query :: string
  t_maxResults :: "64 word"

text \<open>
  \<^verbatim>\<open>
  for _, platform := range platforms {
      fetcher, exists := h.fetchers[platform]
      if !exists {
          log.Printf("WARNING: Unknown platform: %s", platform)
          continue
      }
      wg.Add(1)
      go h.fetchFromPlatform(ctx, fetcher, req.Query, maxResults, resultsChan, &wg)
  }
  \<close>
\<close>

fun launch :: "(string \<rightharpoonup> Fetcher) \<Rightarrow> string \<Rightarrow> 64 word \<Rightarrow> string list \<Rightarrow> task list" where
  "launch reg query maxResults [] = []"
| "launch reg query maxResults (platform # rest) =
     (case reg platform of
        None \<Rightarrow> launch reg query maxResults rest
      | Some fetcher \<Rightarrow>
          \<lparr>t_fetcher = fetcher, t_query = query, t_maxResults = maxResults\<rparr>
            # launch reg query maxResults rest)"

definition fan_out :: "SearchHandler \<Rightarrow> SearchRequest \<Rightarrow> task list" where
  "fan_out h req = launch (fetchers h) (Query req) (maxResults_of h req) (platforms_of req)"

subsection \<open>One task: fetchFromPlatform\<close>

text \<open>The call \<open>fetcher.Fetch(ctx, query, maxResults)\<close> made by the \<open>i\<close>-th task.\<close>

definition Fetch :: "world \<Rightarrow> Context \<Rightarrow> nat \<Rightarrow> task \<Rightarrow> fetch_run" where
  "Fetch w ctx i tk = w ctx i (t_fetcher tk) (t_query tk) (t_maxResults tk)"

text \<open>
  The context of a task: \<open>context.WithTimeout(parentCtx, h.config.Server.PerAPITimeout)\<close>
  (line 154). Tasks start when the request starts, at the instant 0.
\<close>

definition task_ctx :: "SearchHandler \<Rightarrow> Context \<Rightarrow> Context" where
  "task_ctx h parentCtx = WithTimeout parentCtx 0 (PerAPITimeout (Server (config h)))"

text \<open>
  When \<open>Fetch\<close> returns, the task builds the \<open>FetchResult\<close> (lines 151--169) and sends
  it on the channel, which is the pair of the instant of the send and the value sent.
  A task whose \<open>Fetch\<close> never returns sends nothing. \<open>time.Since(startTime)\<close> is the
  instant at which \<open>Fetch\<close> returned.
\<close>

text \<open>
  \<^verbatim>\<open>
  result := models.NewFetchResult(fetcher.Name())
  ctx, cancel := context.WithTimeout(parentCtx, h.config.Server.PerAPITimeout)
  defer cancel()
  results, err := fetcher.Fetch(ctx, query, maxResults)
  result.Duration = time.Since(startTime)
  if err != nil {
      result.Error = err
      if ctx.Err() == context.DeadlineExceeded {
          result.TimedOut = true
      }
  } else {
      result.Results = results
  }
  resultsChan <- result
  \<close>
\<close>

definition fetchFromPlatform ::
  "SearchHandler \<Rightarrow> world \<Rightarrow> Context \<Rightarrow> nat \<Rightarrow> task \<Rightarrow> (nat \<times> FetchResult) option" where
  "fetchFromPlatform h w parentCtx i tk =
     (case Fetch w (task_ctx h parentCtx) i tk of
        Hangs \<Rightarrow> None
      | Returns t results err ctxErr \<Rightarrow>
          (let result = NewFetchResult (Name (t_fetcher tk));
               result = result\<lparr>fr_Duration := t\<rparr>;
               result =
                 (if err \<noteq> None then
                    (let result = result\<lparr>fr_Error := err\<rparr>
                     in if ctxErr = Some DeadlineExceeded
                        then result\<lparr>fr_TimedOut := True\<rparr> else result)
                  else result\<lparr>fr_Results := results\<rparr>)
           in Some (t, result)))"

text \<open>The instant at which the \<open>i\<close>-th task returns from \<open>Fetch\<close> and sends, if it does.\<close>

definition returns_at :: "SearchHandler \<Rightarrow> world \<Rightarrow> Context \<Rightarrow> nat \<Rightarrow> task \<Rightarrow> nat option" where
  "returns_at h w ctx i tk = map_option fst (fetchFromPlatform h w ctx i tk)"

subsection \<open>The channel\<close>

text \<open>
  \<open>resultsChan\<close> is buffered with room for one value per requested platform, so no send
  blocks: the values arrive in the order of their sends. A second goroutine closes
  the channel after \<open>wg.Wait()\<close>, that is once every launched task has run its deferred
  \<open>wg.Done()\<close>, which it does after its send. What the receiving loop observes is
  therefore the values sent, in order of time (tasks that send at the same instant
  in launch order), followed by the close if and only if every task has returned.
\<close>

datatype chan_event = Item FetchResult | Close

definition sends ::
  "SearchHandler \<Rightarrow> world \<Rightarrow> Context \<Rightarrow> task list \<Rightarrow> (nat \<times> FetchResult) option list" where
  "sends h w ctx tasks = map (\<lambda>(i, tk). fetchFromPlatform h w ctx i tk) (enumerate 0 tasks)"

definition arrivals :: "(nat \<times> FetchResult) option list \<Rightarrow> (nat \<times> FetchResult) list" where
  "arrivals outs = sort_key fst (map the (filter (\<lambda>out. out \<noteq> None) outs))"

definition chan_trace :: "(nat \<times> FetchResult) option list \<Rightarrow> (nat \<times> chan_event) list" where
  "chan_trace outs =
     map (\<lambda>(t, r). (t, Item r)) (arrivals outs)
     @ (if list_all (\<lambda>out. out \<noteq> None) outs
        then [(foldr max (map fst (arrivals outs)) 0, Close)] else [])"

subsection \<open>Fan-in\<close>

text \<open>
  The four slices that the loop of lines 94--115 appends to, and one iteration of its
  body.
\<close>

record collected =
  allResults :: "pb_Result list"
  platformsSuccess :: "string list"
  platformsTimeout :: "string list"
  platformsError :: "string list"

definition no_results :: collected where
  "no_results =
     \<lparr>allResults = [], platformsSuccess = [], platformsTimeout = [], platformsError = []\<rparr>"

text \<open>
  \<^verbatim>\<open>
  for fetchResult := range resultsChan {
      if fetchResult.Error != nil {
          if fetchResult.TimedOut {
              platformsTimeout = append(platformsTimeout, fetchResult.Platform)
          } else {
              platformsError = append(platformsError, fetchResult.Platform)
          }
          continue
      }
      platformsSuccess = append(platformsSuccess, fetchResult.Platform)
      for _, result := range fetchResult.Results {
          allResults = append(allResults, result.ToProto())
      }
  }
  \<close>
\<close>

definition collect :: "collected \<Rightarrow> FetchResult \<Rightarrow> collected" where
  "collect acc fetchResult =
     (if fr_Error fetchResult \<noteq> None then
        (if fr_TimedOut fetchResult
         then acc\<lparr>platformsTimeout := platformsTimeout acc @ [fr_Platform fetchResult]\<rparr>
         else acc\<lparr>platformsError := platformsError acc @ [fr_Platform fetchResult]\<rparr>)
      else
        acc\<lparr>platformsSuccess := platformsSuccess acc @ [fr_Platform fetchResult],
            allResults := allResults acc @ map ToProto (fr_Results fetchResult)\<rparr>)"

text \<open>
  \<open>for fetchResult := range resultsChan\<close>: the loop takes the next value, and ends
  when the channel is closed. It has no other exit: when the events run out without
  a close, the receive blocks for ever, which is the value \<open>None\<close>. The loop returns
  the instant of the close together with the slices.
\<close>

fun range_loop :: "(nat \<times> chan_event) list \<Rightarrow> collected \<Rightarrow> (nat \<times> collected) option" where
  "range_loop [] acc = None"
| "range_loop ((t, Close) # events) acc = Some (t, acc)"
| "range_loop ((t, Item fetchResult) # events) acc = range_loop events (collect acc fetchResult)"

text \<open>The fold of the loop body over a sequence of received values.\<close>

definition Fold :: "FetchResult list \<Rightarrow> collected" where
  "Fold outcomes = foldl collect no_results outcomes"

text \<open>
  The failure classification of an outcome, \<open>none\<close>, \<open>timeout\<close> or \<open>error(detail)\<close>, is
  not a field of \<open>FetchResult\<close>: it is how the loop body reads \<open>Error\<close> and
  \<open>TimedOut\<close> (lines 95--107).
\<close>

datatype failure = NoFailure | Timeout | Error string

definition failure_of :: "FetchResult \<Rightarrow> failure" where
  "failure_of fetchResult =
     (case fr_Error fetchResult of
        Some detail \<Rightarrow> (if fr_TimedOut fetchResult then Timeout else Error detail)
      | None \<Rightarrow> NoFailure)"

subsection \<open>Search\<close>

definition fan_in ::
  "SearchHandler \<Rightarrow> Context \<Rightarrow> SearchRequest \<Rightarrow> world \<Rightarrow> (nat \<times> collected) option" where
  "fan_in h ctx req w = range_loop (chan_trace (sends h w ctx (fan_out h req))) no_results"

text \<open>
  \<open>Search\<close> returns the pair \<open>(response, nil)\<close> of its only \<open>return\<close> statement, as
  \<open>Inr response\<close>; \<open>Inl\<close> would be a non-nil error. \<open>None\<close>: the call does not return.
  \<open>int32(len(...))\<close> truncates to 32 bits.
\<close>

definition Search ::
  "SearchHandler \<Rightarrow> Context \<Rightarrow> SearchRequest \<Rightarrow> world \<Rightarrow> (string + SearchResponse) option" where
  "Search h ctx req w =
     (case fan_in h ctx req w of
        None \<Rightarrow> None
      | Some (responseTime, acc) \<Rightarrow>
          Some (Inr
            \<lparr>Results = allResults acc,
             TotalCount = word_of_nat (length (allResults acc)),
             PlatformsSuccess = platformsSuccess acc,
             PlatformsTimeout = platformsTimeout acc,
             PlatformsError = platformsError acc,
             Metadata =
               \<lparr>ResponseTimeMs = word_of_nat responseTime,
                PlatformsQueried = word_of_nat (length (platforms_of req))\<rparr>\<rparr>))"

text \<open>The instant at which \<open>Search\<close> returns, if it does.\<close>

definition Search_returns_at ::
  "SearchHandler \<Rightarrow> Context \<Rightarrow> SearchRequest \<Rightarrow> world \<Rightarrow> nat option" where
  "Search_returns_at h ctx req w = map_option fst (fan_in h ctx req w)"

section \<open>The gRPC server (internal/grpc)\<close>

datatype codes = InvalidArgument | Internal

datatype status = Status codes string

record Server =
  searchHandler :: SearchHandler
  srv_config :: Config

definition NewServer :: "Config \<Rightarrow> Server" where
  "NewServer cfg = \<lparr>searchHandler = NewSearchHandler cfg, srv_config = cfg\<rparr>"

text \<open>Reading a Go \<open>map[string]bool\<close> at a missing key gives \<open>false\<close>.\<close>

definition validPlatforms :: "string \<rightharpoonup> bool" where
  "validPlatforms = Map.empty(''github'' \<mapsto> True, ''stackoverflow'' \<mapsto> True, ''reddit'' \<mapsto> True)"

definition lookup_bool :: "(string \<rightharpoonup> bool) \<Rightarrow> string \<Rightarrow> bool" where
  "lookup_bool m k = (case m k of None \<Rightarrow> False | Some b \<Rightarrow> b)"

text \<open>
  \<^verbatim>\<open>
  if req.Query == "" { return status.Error(codes.InvalidArgument, "query cannot be empty") }
  if len(req.Query) > 500 { return status.Error(..., "query too long (max 500 characters)") }
  if req.MaxResults < 0 { return status.Error(..., "max_results cannot be negative") }
  if req.MaxResults > 100 { return status.Error(..., "max_results cannot exceed 100") }
  for _, platform := range req.Platforms {
      if !validPlatforms[platform] { return status.Error(..., "invalid platform: ...") }
  }
  return nil
  \<close>
\<close>

definition validateSearchRequest :: "SearchRequest \<Rightarrow> status option" where
  "validateSearchRequest req =
     (if Query req = '''' then Some (Status InvalidArgument ''query cannot be empty'')
      else if length (Query req) > 500
        then Some (Status InvalidArgument ''query too long (max 500 characters)'')
      else if sint (MaxResults req) < 0
        then Some (Status InvalidArgument ''max_results cannot be negative'')
      else if sint (MaxResults req) > 100
        then Some (Status InvalidArgument ''max_results cannot exceed 100'')
      else (case find (\<lambda>platform. \<not> lookup_bool validPlatforms platform) (Platforms req) of
              Some platform \<Rightarrow>
                Some (Status InvalidArgument
                  (''invalid platform: '' @ platform @ '' (valid: github, stackoverflow, reddit)''))
            | None \<Rightarrow> None))"

text \<open>
  The context under which \<open>FederatedSearch\<close> calls \<open>Search\<close>:
  \<open>context.WithTimeout(ctx, s.config.Server.ServerTimeout)\<close>, made when the request
  starts.
\<close>

definition searchCtx :: "Server \<Rightarrow> Context \<Rightarrow> Context" where
  "searchCtx s ctx = WithTimeout ctx 0 (ServerTimeout (Server (srv_config s)))"

text \<open>
  \<open>FederatedSearch\<close> returns the tasks that were launched on its behalf together with
  its result: \<open>Inl\<close> the gRPC status error, \<open>Inr\<close> the response, \<open>None\<close> when the call
  does not return.
\<close>

definition FederatedSearch ::
  "Server \<Rightarrow> Context \<Rightarrow> SearchRequest \<Rightarrow> world \<Rightarrow> task list \<times> (status + SearchResponse) option" where
  "FederatedSearch s ctx req w =
     (case validateSearchRequest req of
        Some err \<Rightarrow> ([], Some (Inl err))
      | None \<Rightarrow>
          (fan_out (searchHandler s) req,
           (case Search (searchHandler s) (searchCtx s ctx) req w of
              None \<Rightarrow> None
            | Some (Inl err) \<Rightarrow> Some (Inl (Status Internal (''search failed: '' @ err)))
            | Some (Inr response) \<Rightarrow> Some (Inr response))))"

text \<open>
  The number of characters of a string, for comparison with the byte count that
  \<open>len\<close> returns: in UTF-8 every character has exactly one byte that is not a
  continuation byte (\<open>0x80\<close> to \<open>0xBF\<close>).
\<close>

definition utf8_continuation :: "char \<Rightarrow> bool" where
  "utf8_continuation c = (128 \<le> (of_char c :: nat) \<and> (of_char c :: nat) < 192)"

definition characters :: "string \<Rightarrow> nat" where
  "characters s = length (filter (\<lambda>c. \<not> utf8_continuation c) s)"

section \<open>Example configuration\<close>

text \<open>The default values of \<open>config.Load\<close>: 500 ms for the server, 400 ms per API.\<close>

definition example_config :: Config where
  "example_config =
     \<lparr>Server = \<lparr>ServerTimeout = 500, PerAPITimeout = 400\<rparr>,
      GitHub = \<lparr>gh_APIToken = [], gh_BaseURL = ''https://api.github.com''\<rparr>,
      StackOverflow = \<lparr>so_APIKey = [], so_BaseURL = ''https://api.stackexchange.com/2.3''\<rparr>,
      Reddit = \<lparr>rd_ClientID = [], rd_ClientSecret = [],
                rd_UserAgent = ''FederatedSearchEngine/1.0'',
                rd_BaseURL = ''https://oauth.reddit.com''\<rparr>,
      Performance = \<lparr>MaxResultsPerPlatform = 20\<rparr>\<rparr>"

section \<open>Properties of TruncateString\<close>

lemma sint_sub3_ge: "3 \<le> sint (m :: 64 word) \<Longrightarrow> sint (m - 3) = sint m - 3"
proof -
  assume a: "3 \<le> sint m"
  have b: "sint m < 2 ^ 63" using sint_lt [of m] by simp
  have "sint (m - 3) = signed_take_bit 63 (sint m - 3)"
    by (simp add: sint_word_ariths)
  also have "\<dots> = sint m - 3"
    using a b by (intro signed_take_bit_int_eq_self) auto
  finally show ?thesis .
qed

lemma signed_take_bit_63_shift:
  "signed_take_bit 63 (k + 2 ^ 64) = signed_take_bit 63 (k :: int)"
  by (simp add: signed_take_bit_eq_iff_take_bit_eq take_bit_eq_mod)

lemma sint_sub3_lt:
  assumes "sint (m :: 64 word) < 3"
  shows "sint (m - 3) < 0 \<or> 2 ^ 63 - 3 \<le> sint (m - 3)"
proof -
  have lo: "- (2 ^ 63) \<le> sint m" using sint_ge [of m] by simp
  have eq: "sint (m - 3) = signed_take_bit 63 (sint m - 3)"
    by (simp add: sint_word_ariths)
  show ?thesis
  proof (cases "- (2 ^ 63) \<le> sint m - 3")
    case True
    then have "signed_take_bit 63 (sint m - 3) = sint m - 3"
      using assms by (intro signed_take_bit_int_eq_self) auto
    with eq assms show ?thesis by simp
  next
    case False
    have "signed_take_bit 63 (sint m - 3) = signed_take_bit 63 (sint m - 3 + 2 ^ 64)"
      by (simp only: signed_take_bit_63_shift)
    also have "\<dots> = sint m - 3 + 2 ^ 64"
      using False lo by (intro signed_take_bit_int_eq_self) auto
    finally show ?thesis using eq lo by simp
  qed
qed

lemma length_trimAsciiSpace: "length (trimAsciiSpace t) \<le> length t"
proof -
  have "length (dropWhile isAsciiSpace (rev (dropWhile isAsciiSpace t)))
          \<le> length (rev (dropWhile isAsciiSpace t))"
    by (rule length_dropWhile_le)
  also have "\<dots> \<le> length t"
    by (simp add: length_dropWhile_le)
  finally show ?thesis by (simp add: trimAsciiSpace_def)
qed

text \<open>
  Claim C10. \<open>TruncateString\<close> is not total. For every string \<open>s\<close> and integer
  \<open>maxLength\<close>: if \<open>len(s) \<le> maxLength\<close> it returns \<open>s\<close> unchanged; if
  \<open>len(s) > maxLength\<close> and \<open>maxLength \<ge> 3\<close> it returns a string of length at most
  \<open>maxLength\<close> that ends in \<open>...\<close>; if \<open>len(s) > maxLength\<close> and \<open>maxLength < 3\<close> the
  slice \<open>s[:maxLength-3]\<close> is out of range and the function panics. (The bound on
  \<open>len(s)\<close> in the last case excludes only strings of more than \<open>2^63 - 4\<close> bytes,
  for which the wrapped-around \<open>maxLength-3\<close> could be a valid index.)
\<close>

theorem TruncateString_cases:
  assumes trim: "\<forall>t. length (TrimSpace t) \<le> length t"
  shows "(int (length s) \<le> sint maxLength \<longrightarrow> TruncateString TrimSpace s maxLength = Inr s)
       \<and> (sint maxLength < int (length s) \<and> 3 \<le> sint maxLength \<longrightarrow>
            (\<exists>r. TruncateString TrimSpace s maxLength = Inr (r @ ''...'')
                 \<and> int (length (r @ ''...'')) \<le> sint maxLength))
       \<and> (sint maxLength < int (length s) \<and> sint maxLength < 3 \<and> int (length s) < 2 ^ 63 - 3 \<longrightarrow>
            TruncateString TrimSpace s maxLength = Inl SliceBoundsOutOfRange)"
proof (intro conjI impI)
  assume "int (length s) \<le> sint maxLength"
  then show "TruncateString TrimSpace s maxLength = Inr s"
    by (simp add: TruncateString_def)
next
  assume a: "sint maxLength < int (length s) \<and> 3 \<le> sint maxLength"
  then have hi: "sint (maxLength - 3) = sint maxLength - 3"
    by (simp add: sint_sub3_ge)
  let ?t = "take (nat (sint maxLength - 3)) s"
  have run: "TruncateString TrimSpace s maxLength = Inr (TrimSpace ?t @ ''...'')"
    using a by (simp add: TruncateString_def slice_to_def hi)
  have "length (TrimSpace ?t) \<le> length ?t" using trim by blast
  also have "\<dots> = nat (sint maxLength - 3)" using a by (simp add: min_def) linarith
  finally have "int (length (TrimSpace ?t @ ''...'')) \<le> sint maxLength"
    using a by simp linarith
  with run show "\<exists>r. TruncateString TrimSpace s maxLength = Inr (r @ ''...'')
                 \<and> int (length (r @ ''...'')) \<le> sint maxLength"
    by blast
next
  assume a: "sint maxLength < int (length s) \<and> sint maxLength < 3 \<and> int (length s) < 2 ^ 63 - 3"
  then have "sint maxLength < 3" by blast
  then have "sint (maxLength - 3) < 0 \<or> 2 ^ 63 - 3 \<le> sint (maxLength - 3)"
    by (rule sint_sub3_lt)
  then have "\<not> (0 \<le> sint (maxLength - 3) \<and> sint (maxLength - 3) \<le> int (length s))"
    using a by linarith
  then show "TruncateString TrimSpace s maxLength = Inl SliceBoundsOutOfRange"
    using a by (simp add: TruncateString_def slice_to_def)
qed

text \<open>
  Claim C10 at \<open>"hello world"\<close> (11 bytes) with \<open>maxLength\<close> 20, 9 and 2: unchanged,
  truncated to \<open>"hello..."\<close>, and a panic.
\<close>

theorem TruncateString_cases_witness:
  "TruncateString trimAsciiSpace ''hello world'' 20 = Inr ''hello world''
   \<and> TruncateString trimAsciiSpace ''hello world'' 9 = Inr ''hello...''
   \<and> TruncateString trimAsciiSpace ''hello world'' 2 = Inl SliceBoundsOutOfRange"
proof -
  have trim: "\<forall>t. length (trimAsciiSpace t) \<le> length t"
    by (simp add: length_trimAsciiSpace)
  have run: "TruncateString trimAsciiSpace ''hello world'' 9 = Inr ''hello...''"
    by (simp add: TruncateString_def slice_to_def trimAsciiSpace_def isAsciiSpace_def)
  show ?thesis
    using TruncateString_cases [OF trim, of "''hello world''" 20]
      TruncateString_cases [OF trim, of "''hello world''" 2] run
    by simp
qed

section \<open>The fan-in loop\<close>

lemma foldl_collect_platformsSuccess:
  "platformsSuccess (foldl collect acc rs)
     = platformsSuccess acc @ map fr_Platform (filter (\<lambda>r. fr_Error r = None) rs)"
  by (induction rs arbitrary: acc) (simp_all add: collect_def)

lemma foldl_collect_platformsTimeout:
  "platformsTimeout (foldl collect acc rs)
     = platformsTimeout acc
       @ map fr_Platform (filter (\<lambda>r. fr_Error r \<noteq> None \<and> fr_TimedOut r) rs)"
  by (induction rs arbitrary: acc) (simp_all add: collect_def)

lemma foldl_collect_platformsError:
  "platformsError (foldl collect acc rs)
     = platformsError acc
       @ map fr_Platform (filter (\<lambda>r. fr_Error r \<noteq> None \<and> \<not> fr_TimedOut r) rs)"
  by (induction rs arbitrary: acc) (simp_all add: collect_def)

lemma foldl_collect_allResults:
  "allResults (foldl collect acc rs)
     = allResults acc
       @ concat (map (\<lambda>r. map ToProto (fr_Results r)) (filter (\<lambda>r. fr_Error r = None) rs))"
  by (induction rs arbitrary: acc) (simp_all add: collect_def)

lemma range_loop_items:
  "range_loop (map (\<lambda>(t, r). (t, Item r)) xs @ events) acc
     = range_loop events (foldl collect acc (map snd xs))"
  by (induction xs arbitrary: acc) auto

lemma range_loop_chan_trace:
  "range_loop (chan_trace outs) acc =
     (if list_all (\<lambda>out. out \<noteq> None) outs
      then Some (foldr max (map fst (arrivals outs)) 0,
                 foldl collect acc (map snd (arrivals outs)))
      else None)"
  by (simp add: chan_trace_def range_loop_items)

section \<open>Tasks, sends and arrivals\<close>

lemma fetchFromPlatform_Platform:
  "fetchFromPlatform h w ctx i tk = Some (t, r) \<Longrightarrow> fr_Platform r = Name (t_fetcher tk)"
  by (auto simp: fetchFromPlatform_def NewFetchResult_def Let_def split: fetch_run.splits if_splits)

lemma length_sends: "length (sends h w ctx tasks) = length tasks"
  by (simp add: sends_def)

lemma nth_sends:
  "i < length tasks \<Longrightarrow> sends h w ctx tasks ! i = fetchFromPlatform h w ctx i (tasks ! i)"
  by (simp add: sends_def nth_enumerate_eq)

lemma all_returned_sends:
  "list_all (\<lambda>out. out \<noteq> None) (sends h w ctx tasks)
     \<longleftrightarrow> (\<forall>i<length tasks. returns_at h w ctx i (tasks ! i) \<noteq> None)"
  by (simp add: list_all_length length_sends nth_sends returns_at_def)

lemma mset_arrivals:
  "mset (arrivals outs) = mset (map the (filter (\<lambda>out. out \<noteq> None) outs))"
  by (simp add: arrivals_def)

lemma set_arrivals:
  "set (arrivals outs) = {x. Some x \<in> set outs}"
  by (auto simp: arrivals_def image_iff) force

lemma arrivals_all_returned:
  "list_all (\<lambda>out. out \<noteq> None) outs \<Longrightarrow> mset (arrivals outs) = mset (map the outs)"
  by (simp add: mset_arrivals list_all_iff)

lemma platform_of_send:
  assumes "fetchFromPlatform h w ctx i tk \<noteq> None"
  shows "fr_Platform (snd (the (fetchFromPlatform h w ctx i tk))) = Name (t_fetcher tk)"
proof -
  from assms obtain t r where "fetchFromPlatform h w ctx i tk = Some (t, r)" by auto
  then show ?thesis by (simp add: fetchFromPlatform_Platform)
qed

lemma platforms_of_sends_aux:
  "list_all (\<lambda>out. out \<noteq> None) (map (\<lambda>(i, tk). fetchFromPlatform h w ctx i tk) (enumerate n tasks))
   \<Longrightarrow> map (\<lambda>out. fr_Platform (snd (the out)))
         (map (\<lambda>(i, tk). fetchFromPlatform h w ctx i tk) (enumerate n tasks))
       = map (\<lambda>tk. Name (t_fetcher tk)) tasks"
  by (induction tasks arbitrary: n) (simp_all add: platform_of_send)

lemma platforms_of_sends:
  "list_all (\<lambda>out. out \<noteq> None) (sends h w ctx tasks)
   \<Longrightarrow> map (\<lambda>out. fr_Platform (snd (the out))) (sends h w ctx tasks)
       = map (\<lambda>tk. Name (t_fetcher tk)) tasks"
  unfolding sends_def by (rule platforms_of_sends_aux)

lemma mset_platforms_arrivals:
  assumes "list_all (\<lambda>out. out \<noteq> None) (sends h w ctx tasks)"
  shows "mset (map fr_Platform (map snd (arrivals (sends h w ctx tasks))))
           = mset (map (\<lambda>tk. Name (t_fetcher tk)) tasks)"
proof -
  have "mset (map fr_Platform (map snd (arrivals (sends h w ctx tasks))))
          = image_mset (\<lambda>x. fr_Platform (snd x)) (mset (arrivals (sends h w ctx tasks)))"
    by (simp add: comp_def)
  also have "\<dots> = image_mset (\<lambda>x. fr_Platform (snd x)) (mset (map the (sends h w ctx tasks)))"
    using assms by (simp add: arrivals_all_returned)
  also have "\<dots> = mset (map (\<lambda>out. fr_Platform (snd (the out))) (sends h w ctx tasks))"
    by (simp add: image_mset.compositionality comp_def)
  also have "\<dots> = mset (map (\<lambda>tk. Name (t_fetcher tk)) tasks)"
    using assms by (simp add: platforms_of_sends)
  finally show ?thesis .
qed

lemma mset_partition3:
  "mset (map f (filter (\<lambda>r. fr_Error r = None) rs))
   + mset (map f (filter (\<lambda>r. fr_Error r \<noteq> None \<and> fr_TimedOut r) rs))
   + mset (map f (filter (\<lambda>r. fr_Error r \<noteq> None \<and> \<not> fr_TimedOut r) rs))
   = mset (map f rs)"
  by (induction rs) auto

lemma foldr_max_upper: "t \<in> set ts \<Longrightarrow> t \<le> foldr max ts (0::nat)"
  by (induction ts) auto

lemma foldr_max_mem: "ts \<noteq> [] \<Longrightarrow> foldr max ts (0::nat) \<in> set ts"
proof (induction ts)
  case Nil
  then show ?case by simp
next
  case (Cons a ts)
  then show ?case by (cases "ts = []") (auto simp: max_def)
qed

lemma foldr_max_le: "(\<forall>t\<in>set ts. t \<le> d) \<Longrightarrow> foldr max ts (0::nat) \<le> d"
  by (induction ts) auto

lemma fan_in_eq:
  "fan_in h ctx req w =
     (if \<forall>i<length (fan_out h req). returns_at h w ctx i (fan_out h req ! i) \<noteq> None
      then Some (foldr max (map fst (arrivals (sends h w ctx (fan_out h req)))) 0,
                 Fold (map snd (arrivals (sends h w ctx (fan_out h req)))))
      else None)"
  by (simp only: fan_in_def range_loop_chan_trace all_returned_sends Fold_def)

lemma Some_in_sends:
  "Some x \<in> set (sends h w ctx tasks) \<longleftrightarrow> (\<exists>i<length tasks. fetchFromPlatform h w ctx i (tasks ! i) = Some x)"
proof
  assume "Some x \<in> set (sends h w ctx tasks)"
  then obtain i where "i < length (sends h w ctx tasks)" "sends h w ctx tasks ! i = Some x"
    by (auto simp: in_set_conv_nth)
  then show "\<exists>i<length tasks. fetchFromPlatform h w ctx i (tasks ! i) = Some x"
    by (auto simp: length_sends nth_sends)
next
  assume "\<exists>i<length tasks. fetchFromPlatform h w ctx i (tasks ! i) = Some x"
  then obtain i where i: "i < length tasks" "fetchFromPlatform h w ctx i (tasks ! i) = Some x"
    by blast
  then have "sends h w ctx tasks ! i = Some x" by (simp add: nth_sends)
  moreover have "i < length (sends h w ctx tasks)" using i by (simp add: length_sends)
  ultimately show "Some x \<in> set (sends h w ctx tasks)" by (metis nth_mem)
qed

lemma set_times_arrivals:
  "set (map fst (arrivals (sends h w ctx tasks)))
     = {t. \<exists>i<length tasks. returns_at h w ctx i (tasks ! i) = Some t}"
  by (auto simp: set_arrivals Some_in_sends returns_at_def image_iff) force

section \<open>Search in terms of the received values\<close>

text \<open>The definitions unfolded to evaluate the model on concrete requests.\<close>

lemmas eval_defs = Search_returns_at_def Search_def fan_in_def chan_trace_def sends_def arrivals_def
  fan_out_def platforms_of_def maxResults_of_def NewSearchHandler_def example_config_def
  fetchFromPlatform_def Fetch_def NewFetchResult_def collect_def no_results_def Let_def
  task_ctx_def WithTimeout_def Background_def http_world_def http_Fetch_def cutoff_def cut_off_def

lemma Search_returns_at_eq:
  "Search_returns_at h ctx req w =
     (if \<forall>i<length (fan_out h req). returns_at h w ctx i (fan_out h req ! i) \<noteq> None
      then Some (foldr max (map fst (arrivals (sends h w ctx (fan_out h req)))) 0)
      else None)"
  by (simp add: Search_returns_at_def fan_in_eq)

lemma Search_eq:
  "Search h ctx req w =
     (if \<forall>i<length (fan_out h req). returns_at h w ctx i (fan_out h req ! i) \<noteq> None
      then Some (Inr
            \<lparr>Results = allResults (Fold (map snd (arrivals (sends h w ctx (fan_out h req))))),
             TotalCount = word_of_nat (length (allResults (Fold (map snd (arrivals (sends h w ctx (fan_out h req))))))),
             PlatformsSuccess = platformsSuccess (Fold (map snd (arrivals (sends h w ctx (fan_out h req))))),
             PlatformsTimeout = platformsTimeout (Fold (map snd (arrivals (sends h w ctx (fan_out h req))))),
             PlatformsError = platformsError (Fold (map snd (arrivals (sends h w ctx (fan_out h req))))),
             Metadata =
               \<lparr>ResponseTimeMs = word_of_nat (foldr max (map fst (arrivals (sends h w ctx (fan_out h req)))) 0),
                PlatformsQueried = word_of_nat (length (platforms_of req))\<rparr>\<rparr>)
      else None)"
  by (simp add: Search_def fan_in_eq)

lemma Fold_platformsSuccess:
  "platformsSuccess (Fold rs) = map fr_Platform (filter (\<lambda>r. fr_Error r = None) rs)"
  by (simp add: Fold_def foldl_collect_platformsSuccess no_results_def)

lemma Fold_platformsTimeout:
  "platformsTimeout (Fold rs)
     = map fr_Platform (filter (\<lambda>r. fr_Error r \<noteq> None \<and> fr_TimedOut r) rs)"
  by (simp add: Fold_def foldl_collect_platformsTimeout no_results_def)

lemma Fold_platformsError:
  "platformsError (Fold rs)
     = map fr_Platform (filter (\<lambda>r. fr_Error r \<noteq> None \<and> \<not> fr_TimedOut r) rs)"
  by (simp add: Fold_def foldl_collect_platformsError no_results_def)

lemma Fold_allResults:
  "allResults (Fold rs)
     = concat (map (\<lambda>r. map ToProto (fr_Results r)) (filter (\<lambda>r. fr_Error r = None) rs))"
  by (simp add: Fold_def foldl_collect_allResults no_results_def)

lemma mset_Fold_platforms:
  "mset (platformsSuccess (Fold rs)) + mset (platformsTimeout (Fold rs))
     + mset (platformsError (Fold rs)) = mset (map fr_Platform rs)"
  by (simp only: Fold_platformsSuccess Fold_platformsTimeout Fold_platformsError mset_partition3)

lemma mset_Search_platforms:
  assumes "Search h ctx req w = Some (Inr resp)"
  shows "mset (PlatformsSuccess resp) + mset (PlatformsTimeout resp) + mset (PlatformsError resp)
           = mset (map (\<lambda>tk. Name (t_fetcher tk)) (fan_out h req))"
proof -
  let ?tasks = "fan_out h req"
  let ?rs = "map snd (arrivals (sends h w ctx ?tasks))"
  from assms have all: "\<forall>i<length ?tasks. returns_at h w ctx i (?tasks ! i) \<noteq> None"
    by (simp add: Search_eq split: if_splits)
  then have ret: "list_all (\<lambda>out. out \<noteq> None) (sends h w ctx ?tasks)"
    by (simp only: all_returned_sends)
  from assms all have
    "PlatformsSuccess resp = platformsSuccess (Fold ?rs)"
    "PlatformsTimeout resp = platformsTimeout (Fold ?rs)"
    "PlatformsError resp = platformsError (Fold ?rs)"
    by (auto simp: Search_eq)
  then have "mset (PlatformsSuccess resp) + mset (PlatformsTimeout resp) + mset (PlatformsError resp)
               = mset (map fr_Platform ?rs)"
    by (simp only: mset_Fold_platforms)
  also have "\<dots> = mset (map (\<lambda>tk. Name (t_fetcher tk)) ?tasks)"
    using ret by (rule mset_platforms_arrivals)
  finally show ?thesis .
qed

section \<open>When Search returns\<close>

lemma Search_returns_with_last_task:
  "(Search_returns_at h ctx req w = None
      \<longleftrightarrow> (\<exists>i<length (fan_out h req). returns_at h w ctx i (fan_out h req ! i) = None))
   \<and> (\<forall>t. Search_returns_at h ctx req w = Some t \<longrightarrow>
         (\<forall>i<length (fan_out h req). \<exists>u\<le>t. returns_at h w ctx i (fan_out h req ! i) = Some u)
         \<and> (fan_out h req = [] \<longrightarrow> t = 0)
         \<and> (fan_out h req \<noteq> [] \<longrightarrow>
               (\<exists>i<length (fan_out h req). returns_at h w ctx i (fan_out h req ! i) = Some t)))
   \<and> (\<forall>resp. Search h ctx req w = Some (Inr resp) \<longrightarrow>
         length (PlatformsSuccess resp) + length (PlatformsTimeout resp)
           + length (PlatformsError resp) = length (fan_out h req))
   \<and> ((\<forall>i<length (fan_out h req). \<exists>u\<le>d. returns_at h w ctx i (fan_out h req ! i) = Some u) \<longrightarrow>
         (\<exists>t\<le>d. Search_returns_at h ctx req w = Some t))"
proof -
  let ?tasks = "fan_out h req"
  let ?ts = "map fst (arrivals (sends h w ctx ?tasks))"
  have times: "set ?ts = {t. \<exists>i<length ?tasks. returns_at h w ctx i (?tasks ! i) = Some t}"
    by (rule set_times_arrivals)
  have A: "Search_returns_at h ctx req w = None
      \<longleftrightarrow> (\<exists>i<length ?tasks. returns_at h w ctx i (?tasks ! i) = None)"
    by (simp add: Search_returns_at_eq)
  have B: "(\<forall>i<length ?tasks. \<exists>u\<le>t. returns_at h w ctx i (?tasks ! i) = Some u)
         \<and> (?tasks = [] \<longrightarrow> t = 0)
         \<and> (?tasks \<noteq> [] \<longrightarrow> (\<exists>i<length ?tasks. returns_at h w ctx i (?tasks ! i) = Some t))"
    if ret: "Search_returns_at h ctx req w = Some t" for t
  proof -
    from ret have all: "\<forall>i<length ?tasks. returns_at h w ctx i (?tasks ! i) \<noteq> None"
      and t: "t = foldr max ?ts 0"
      by (auto simp: Search_returns_at_eq split: if_splits)
    have 1: "\<forall>i<length ?tasks. \<exists>u\<le>t. returns_at h w ctx i (?tasks ! i) = Some u"
    proof (intro allI impI)
      fix i assume i: "i < length ?tasks"
      with all obtain u where u: "returns_at h w ctx i (?tasks ! i) = Some u" by auto
      with i have "u \<in> set ?ts" unfolding times by blast
      then have "u \<le> t" unfolding t by (rule foldr_max_upper)
      with u show "\<exists>u\<le>t. returns_at h w ctx i (?tasks ! i) = Some u" by blast
    qed
    have 2: "?tasks = [] \<longrightarrow> t = 0"
      unfolding t by (simp add: sends_def arrivals_def)
    have 3: "?tasks \<noteq> [] \<longrightarrow> (\<exists>i<length ?tasks. returns_at h w ctx i (?tasks ! i) = Some t)"
    proof
      assume ne: "?tasks \<noteq> []"
      then have "0 < length ?tasks" by simp
      with all obtain u where "returns_at h w ctx 0 (?tasks ! 0) = Some u" by auto
      with \<open>0 < length ?tasks\<close> have "u \<in> set ?ts" unfolding times by blast
      then have "?ts \<noteq> []" by auto
      then have "foldr max ?ts 0 \<in> set ?ts" by (rule foldr_max_mem)
      then show "\<exists>i<length ?tasks. returns_at h w ctx i (?tasks ! i) = Some t"
        unfolding t times by blast
    qed
    from 1 2 3 show ?thesis by blast
  qed
  have C: "length (PlatformsSuccess resp) + length (PlatformsTimeout resp)
           + length (PlatformsError resp) = length ?tasks"
    if "Search h ctx req w = Some (Inr resp)" for resp
  proof -
    have "size (mset (PlatformsSuccess resp) + mset (PlatformsTimeout resp)
            + mset (PlatformsError resp)) = size (mset (map (\<lambda>tk. Name (t_fetcher tk)) ?tasks))"
      using that by (simp only: mset_Search_platforms)
    then show ?thesis by simp
  qed
  have D: "\<exists>t\<le>d. Search_returns_at h ctx req w = Some t"
    if by_d: "\<forall>i<length ?tasks. \<exists>u\<le>d. returns_at h w ctx i (?tasks ! i) = Some u"
  proof -
    from by_d have all: "\<forall>i<length ?tasks. returns_at h w ctx i (?tasks ! i) \<noteq> None" by auto
    have "\<forall>t\<in>set ?ts. t \<le> d" unfolding times using by_d by fastforce
    then have "foldr max ?ts 0 \<le> d" by (rule foldr_max_le)
    with all show ?thesis by (simp add: Search_returns_at_eq)
  qed
  from A B C D show ?thesis by blast
qed

lemma http_Fetch_returns:
  "\<exists>t results err ctxErr. http_Fetch ctx x = Returns t results err ctxErr \<and> t \<le> cutoff ctx"
  by (cases x) (auto simp: http_Fetch_def cut_off_def)

lemma cutoff_le_deadline: "Deadline ctx = Some d \<Longrightarrow> cutoff ctx \<le> d"
  by (simp add: cutoff_def)

lemma Deadline_WithTimeout_le:
  "\<exists>d. Deadline (WithTimeout parent 0 timeout) = Some d \<and> d \<le> timeout
        \<and> (\<forall>p. Deadline parent = Some p \<longrightarrow> d \<le> p)"
  by (cases "Deadline parent") (simp_all add: WithTimeout_def)

lemma task_ctx_deadline:
  "\<exists>d. Deadline (task_ctx h (WithTimeout ctx 0 T)) = Some d \<and> d \<le> T
        \<and> d \<le> PerAPITimeout (Server (config h))"
proof -
  obtain p where p: "Deadline (WithTimeout ctx 0 T) = Some p" "p \<le> T"
    using Deadline_WithTimeout_le [of ctx T] by blast
  obtain d where d: "Deadline (task_ctx h (WithTimeout ctx 0 T)) = Some d"
      "d \<le> PerAPITimeout (Server (config h))"
      "\<forall>q. Deadline (WithTimeout ctx 0 T) = Some q \<longrightarrow> d \<le> q"
    unfolding task_ctx_def
    using Deadline_WithTimeout_le [of "WithTimeout ctx 0 T" "PerAPITimeout (Server (config h))"]
    by blast
  from d(3) p have "d \<le> T" by fastforce
  with d show ?thesis by blast
qed

lemma http_task_returns:
  "\<exists>u. returns_at h (http_world up) (WithTimeout ctx 0 T) i tk = Some u \<and> u \<le> T
        \<and> u \<le> PerAPITimeout (Server (config h))"
proof -
  let ?c = "task_ctx h (WithTimeout ctx 0 T)"
  obtain d where d: "Deadline ?c = Some d" "d \<le> T" "d \<le> PerAPITimeout (Server (config h))"
    using task_ctx_deadline by blast
  obtain t results err ctxErr
    where r: "Fetch (http_world up) ?c i tk = Returns t results err ctxErr" and t: "t \<le> cutoff ?c"
    unfolding Fetch_def http_world_def using http_Fetch_returns by blast
  have "cutoff ?c \<le> d" using d(1) by (rule cutoff_le_deadline)
  with t d have "t \<le> T" "t \<le> PerAPITimeout (Server (config h))" by auto
  moreover have "returns_at h (http_world up) (WithTimeout ctx 0 T) i tk = Some t"
    using r by (simp add: returns_at_def fetchFromPlatform_def Let_def)
  ultimately show ?thesis by blast
qed

lemma Search_returns_by_timeout:
  "\<exists>t. Search_returns_at h (WithTimeout ctx 0 T) req (http_world up) = Some t
      \<and> t \<le> T
      \<and> (\<forall>i<length (fan_out h req).
            \<exists>u\<le>t. returns_at h (http_world up) (WithTimeout ctx 0 T) i (fan_out h req ! i) = Some u)
      \<and> (fan_out h req \<noteq> [] \<longrightarrow>
            (\<exists>i<length (fan_out h req).
               returns_at h (http_world up) (WithTimeout ctx 0 T) i (fan_out h req ! i) = Some t))
      \<and> (\<exists>resp. Search h (WithTimeout ctx 0 T) req (http_world up) = Some (Inr resp)
            \<and> length (PlatformsSuccess resp) + length (PlatformsTimeout resp)
                + length (PlatformsError resp) = length (fan_out h req))"
proof -
  let ?c = "WithTimeout ctx 0 T"
  let ?w = "http_world up"
  let ?tasks = "fan_out h req"
  note L = Search_returns_with_last_task [of h ?c req ?w T]
  have each: "\<forall>i<length ?tasks. \<exists>u\<le>T. returns_at h ?w ?c i (?tasks ! i) = Some u"
    using http_task_returns [of h up ctx T] by blast
  with L obtain t where t: "Search_returns_at h ?c req ?w = Some t" "t \<le> T" by blast
  from L t(1) have all: "\<forall>i<length ?tasks. \<exists>u\<le>t. returns_at h ?w ?c i (?tasks ! i) = Some u"
    and last: "?tasks \<noteq> [] \<longrightarrow> (\<exists>i<length ?tasks. returns_at h ?w ?c i (?tasks ! i) = Some t)"
    by blast+
  from t(1) obtain resp where resp: "Search h ?c req ?w = Some (Inr resp)"
    by (auto simp: Search_returns_at_def Search_def split: option.splits)
  with L have "length (PlatformsSuccess resp) + length (PlatformsTimeout resp)
                + length (PlatformsError resp) = length ?tasks"
    by blast
  with t all last resp show ?thesis by blast
qed

text \<open>
  Claim C1. For every request, every incoming context and every behaviour of the
  remote APIs, \<open>Search\<close>, called as \<open>FederatedSearch\<close> calls it, returns, and it
  returns no later than the global timeout \<open>ServerTimeout\<close>, however long the
  exchange of any provider would take, also when it would never complete. The fan-in
  loop ends when it has received one outcome from every launched task, at the instant
  the last of them arrives: the response lists as many platform names as tasks were
  launched. The loop has no exit of its own on the deadline; the bound holds because
  every task calls \<open>Fetch\<close> under a context whose deadline is nested in the global
  one, and each \<open>Fetch\<close> abandons its request when that context is done, so that the
  count is complete by the deadline. The time is the model's; scheduling slack is not
  part of it.
\<close>

theorem Search_returns_within_deadline:
  "\<exists>t. Search_returns_at (searchHandler s) (searchCtx s ctx) req (http_world up) = Some t
      \<and> t \<le> ServerTimeout (Server (srv_config s))
      \<and> (\<forall>i<length (fan_out (searchHandler s) req).
            \<exists>u\<le>t. returns_at (searchHandler s) (http_world up) (searchCtx s ctx) i
                     (fan_out (searchHandler s) req ! i) = Some u)
      \<and> (fan_out (searchHandler s) req \<noteq> [] \<longrightarrow>
            (\<exists>i<length (fan_out (searchHandler s) req).
               returns_at (searchHandler s) (http_world up) (searchCtx s ctx) i
                 (fan_out (searchHandler s) req ! i) = Some t))
      \<and> (\<exists>resp. Search (searchHandler s) (searchCtx s ctx) req (http_world up) = Some (Inr resp)
            \<and> length (PlatformsSuccess resp) + length (PlatformsTimeout resp)
                + length (PlatformsError resp) = length (fan_out (searchHandler s) req)
            \<and> (validateSearchRequest req = None \<longrightarrow>
                  snd (FederatedSearch s ctx req (http_world up)) = Some (Inr resp)))"
proof -
  from Search_returns_by_timeout
         [of "searchHandler s" ctx "ServerTimeout (Server (srv_config s))" req up]
  obtain t resp where
    t: "Search_returns_at (searchHandler s) (searchCtx s ctx) req (http_world up) = Some t"
       "t \<le> ServerTimeout (Server (srv_config s))"
       "\<forall>i<length (fan_out (searchHandler s) req).
            \<exists>u\<le>t. returns_at (searchHandler s) (http_world up) (searchCtx s ctx) i
                     (fan_out (searchHandler s) req ! i) = Some u"
       "fan_out (searchHandler s) req \<noteq> [] \<longrightarrow>
            (\<exists>i<length (fan_out (searchHandler s) req).
               returns_at (searchHandler s) (http_world up) (searchCtx s ctx) i
                 (fan_out (searchHandler s) req ! i) = Some t)"
    and r: "Search (searchHandler s) (searchCtx s ctx) req (http_world up) = Some (Inr resp)"
       "length (PlatformsSuccess resp) + length (PlatformsTimeout resp)
                + length (PlatformsError resp) = length (fan_out (searchHandler s) req)"
    unfolding searchCtx_def by blast
  have f: "validateSearchRequest req = None \<longrightarrow>
          snd (FederatedSearch s ctx req (http_world up)) = Some (Inr resp)"
    using r(1) by (simp add: FederatedSearch_def)
  have e: "\<exists>resp. Search (searchHandler s) (searchCtx s ctx) req (http_world up) = Some (Inr resp)
            \<and> length (PlatformsSuccess resp) + length (PlatformsTimeout resp)
                + length (PlatformsError resp) = length (fan_out (searchHandler s) req)
            \<and> (validateSearchRequest req = None \<longrightarrow>
                  snd (FederatedSearch s ctx req (http_world up)) = Some (Inr resp))"
    using r f by (intro exI [of _ resp] conjI)
  from t e show ?thesis by (intro exI [of _ t] conjI)
qed

text \<open>
  Claim C1 at the default platforms, with timeouts of 500 ms and 400 ms: the exchange of
  GitHub would take 5000 ms, ten times the global timeout, that of StackOverflow never
  completes, Reddit answers after 120 ms. \<open>Search\<close> returns after 400 ms with GitHub
  and StackOverflow timed out.
\<close>

theorem Search_returns_within_deadline_witness:
  "snd (FederatedSearch (NewServer example_config) Background
          \<lparr>Query = ''go'', MaxResults = 5, Platforms = []\<rparr>
          (http_world (\<lambda>i f q m. if i = 0 then Completes 5000 [] None
                                   else if i = 1 then NoAnswer else Completes 120 [] None)))
     = Some (Inr \<lparr>Results = [], TotalCount = 0, PlatformsSuccess = [''reddit''],
                  PlatformsTimeout = [''github'', ''stackoverflow''], PlatformsError = [],
                  Metadata = \<lparr>ResponseTimeMs = 400, PlatformsQueried = 3\<rparr>\<rparr>)
   \<and> Search_returns_at (NewSearchHandler example_config)
         (WithTimeout Background 0 500)
         \<lparr>Query = ''go'', MaxResults = 5, Platforms = []\<rparr>
         (http_world (\<lambda>i f q m. if i = 0 then Completes 5000 [] None
                                  else if i = 1 then NoAnswer else Completes 120 [] None))
     = Some 400
   \<and> (400 :: nat) \<le> 500"
proof -
  let ?req = "\<lparr>Query = ''go'', MaxResults = 5, Platforms = []\<rparr>"
  let ?up = "\<lambda>i f q m. if i = (0::nat) then Completes 5000 [] None
                        else if i = 1 then NoAnswer else Completes 120 [] None"
  have run: "snd (FederatedSearch (NewServer example_config) Background ?req (http_world ?up))
     = Some (Inr \<lparr>Results = [], TotalCount = 0, PlatformsSuccess = [''reddit''],
                  PlatformsTimeout = [''github'', ''stackoverflow''], PlatformsError = [],
                  Metadata = \<lparr>ResponseTimeMs = 400, PlatformsQueried = 3\<rparr>\<rparr>)"
    by (simp add: eval_defs FederatedSearch_def NewServer_def searchCtx_def
          validateSearchRequest_def validPlatforms_def lookup_bool_def)
  have at: "Search_returns_at (NewSearchHandler example_config) (WithTimeout Background 0 500)
              ?req (http_world ?up) = Some 400"
    by (simp add: eval_defs)
  have c: "searchCtx (NewServer example_config) Background = WithTimeout Background 0 500"
    by (simp add: searchCtx_def NewServer_def example_config_def)
  have h: "searchHandler (NewServer example_config) = NewSearchHandler example_config"
    by (simp add: NewServer_def)
  have T: "ServerTimeout (Server (srv_config (NewServer example_config))) = 500"
    by (simp add: NewServer_def example_config_def)
  from Search_returns_within_deadline [of "NewServer example_config" Background ?req ?up]
  have "(400 :: nat) \<le> 500" unfolding c h T at by auto
  with run at show ?thesis by blast
qed

section \<open>Classification of an outcome\<close>

text \<open>
  Claim C4. A task whose \<open>Fetch\<close> returns \<open>(results, err)\<close> while \<open>ctx.Err()\<close> reads
  \<open>ctxErr\<close> sends one outcome, under the provider's name. Its failure is \<open>none\<close> when
  \<open>err\<close> is \<open>nil\<close>, whatever the context says; \<open>timeout\<close> when \<open>err\<close> is not \<open>nil\<close>
  and the task's context reports \<open>DeadlineExceeded\<close>, whatever the error is; and
  \<open>error(detail)\<close> for every other failure. The loop body appends the name to the list
  of that classification, and to no other.
\<close>

theorem fetchFromPlatform_classification:
  "Fetch w (task_ctx h parentCtx) i tk = Returns t results err ctxErr \<Longrightarrow>
     (\<exists>r. fetchFromPlatform h w parentCtx i tk = Some (t, r)
        \<and> fr_Platform r = Name (t_fetcher tk)
        \<and> failure_of r =
            (case err of
               None \<Rightarrow> NoFailure
             | Some detail \<Rightarrow> if ctxErr = Some DeadlineExceeded then Timeout else Error detail)
        \<and> collect acc r =
            (case failure_of r of
               NoFailure \<Rightarrow>
                 acc\<lparr>platformsSuccess := platformsSuccess acc @ [Name (t_fetcher tk)],
                     allResults := allResults acc @ map ToProto results\<rparr>
             | Timeout \<Rightarrow> acc\<lparr>platformsTimeout := platformsTimeout acc @ [Name (t_fetcher tk)]\<rparr>
             | Error detail \<Rightarrow>
                 acc\<lparr>platformsError := platformsError acc @ [Name (t_fetcher tk)]\<rparr>))"
  by (cases err)
    (simp_all add: fetchFromPlatform_def NewFetchResult_def failure_of_def collect_def Let_def)

text \<open>
  Claim C4 at three calls: an error under an exceeded deadline is a timeout, an error
  under a cancelled context is an error, a success under an exceeded deadline is a
  success.
\<close>

theorem fetchFromPlatform_classification_witness:
  "(\<exists>r. fetchFromPlatform (NewSearchHandler example_config)
          (\<lambda>c i f q m. Returns 400 [] (Some ''connection reset'') (Some DeadlineExceeded)) Background 0
          \<lparr>t_fetcher = GitHubFetcher [] [], t_query = ''go'', t_maxResults = 5\<rparr> = Some (400, r)
        \<and> failure_of r = Timeout)
   \<and> (\<exists>r. fetchFromPlatform (NewSearchHandler example_config)
          (\<lambda>c i f q m. Returns 30 [] (Some ''connection reset'') (Some Canceled)) Background 0
          \<lparr>t_fetcher = GitHubFetcher [] [], t_query = ''go'', t_maxResults = 5\<rparr> = Some (30, r)
        \<and> failure_of r = Error ''connection reset'')
   \<and> (\<exists>r. fetchFromPlatform (NewSearchHandler example_config)
          (\<lambda>c i f q m. Returns 400 [] None (Some DeadlineExceeded)) Background 0
          \<lparr>t_fetcher = GitHubFetcher [] [], t_query = ''go'', t_maxResults = 5\<rparr> = Some (400, r)
        \<and> failure_of r = NoFailure)"
proof -
  let ?tk = "\<lparr>t_fetcher = GitHubFetcher [] [], t_query = ''go'', t_maxResults = 5\<rparr>"
  let ?h = "NewSearchHandler example_config"
  let ?w1 = "\<lambda>c i f q m. Returns 400 [] (Some ''connection reset'') (Some DeadlineExceeded) "
  let ?w2 = "\<lambda>c i f q m. Returns 30 [] (Some ''connection reset'') (Some Canceled) "
  let ?w3 = "\<lambda>c i f q m. Returns 400 [] None (Some DeadlineExceeded) "
  have 1: "Fetch ?w1 (task_ctx ?h Background) 0 ?tk = Returns 400 [] (Some ''connection reset'') (Some DeadlineExceeded)"
    by (simp add: Fetch_def)
  have 2: "Fetch ?w2 (task_ctx ?h Background) 0 ?tk = Returns 30 [] (Some ''connection reset'') (Some Canceled)"
    by (simp add: Fetch_def)
  have 3: "Fetch ?w3 (task_ctx ?h Background) 0 ?tk = Returns 400 [] None (Some DeadlineExceeded)"
    by (simp add: Fetch_def)
  have a: "\<exists>r. fetchFromPlatform ?h ?w1 Background 0 ?tk = Some (400, r) \<and> failure_of r = Timeout"
    using fetchFromPlatform_classification [OF 1, of no_results] by auto
  have b: "\<exists>r. fetchFromPlatform ?h ?w2 Background 0 ?tk = Some (30, r)
             \<and> failure_of r = Error ''connection reset''"
    using fetchFromPlatform_classification [OF 2, of no_results] by auto
  have c: "\<exists>r. fetchFromPlatform ?h ?w3 Background 0 ?tk = Some (400, r) \<and> failure_of r = NoFailure"
    using fetchFromPlatform_classification [OF 3, of no_results] by auto
  from a b c show ?thesis by (intro conjI)
qed

section \<open>Order of the received values\<close>

lemma mset_map_filter_cong:
  "mset xs = mset ys \<Longrightarrow> mset (map f (filter P xs)) = mset (map f (filter P ys))"
proof -
  assume "mset xs = mset ys"
  then have "image_mset f (filter_mset P (mset xs)) = image_mset f (filter_mset P (mset ys))"
    by simp
  then show ?thesis by simp
qed

lemma mset_concat_map_cong:
  assumes "mset xs = mset ys"
  shows "mset (concat (map g xs)) = mset (concat (map g ys))"
proof -
  have "mset (concat (map g zs)) = sum_mset (image_mset (\<lambda>z. mset (g z)) (mset zs))" for zs
    by (induction zs) simp_all
  with assms show ?thesis by simp
qed

text \<open>
  Claim C7. Folding a permutation of a sequence of outcomes gives the same three
  partition sets (and the same lists up to order) and the same multiset of results.
  \<open>Fold\<close> is what the loop computes from the values it receives before the close.
\<close>

theorem Fold_order_insensitive:
  assumes "mset xs = mset ys"
  shows "set (platformsSuccess (Fold xs)) = set (platformsSuccess (Fold ys))
       \<and> set (platformsTimeout (Fold xs)) = set (platformsTimeout (Fold ys))
       \<and> set (platformsError (Fold xs)) = set (platformsError (Fold ys))
       \<and> mset (allResults (Fold xs)) = mset (allResults (Fold ys))
       \<and> mset (platformsSuccess (Fold xs)) = mset (platformsSuccess (Fold ys))
       \<and> mset (platformsTimeout (Fold xs)) = mset (platformsTimeout (Fold ys))
       \<and> mset (platformsError (Fold xs)) = mset (platformsError (Fold ys))
       \<and> range_loop (map (\<lambda>r. (t, Item r)) xs @ [(t, Close)]) no_results = Some (t, Fold xs)"
proof -
  have S: "mset (platformsSuccess (Fold xs)) = mset (platformsSuccess (Fold ys))"
    unfolding Fold_platformsSuccess using assms by (rule mset_map_filter_cong)
  have T: "mset (platformsTimeout (Fold xs)) = mset (platformsTimeout (Fold ys))"
    unfolding Fold_platformsTimeout using assms by (rule mset_map_filter_cong)
  have E: "mset (platformsError (Fold xs)) = mset (platformsError (Fold ys))"
    unfolding Fold_platformsError using assms by (rule mset_map_filter_cong)
  have "mset (filter (\<lambda>r. fr_Error r = None) xs) = mset (filter (\<lambda>r. fr_Error r = None) ys)"
    using assms by simp
  then have R: "mset (allResults (Fold xs)) = mset (allResults (Fold ys))"
    unfolding Fold_allResults by (rule mset_concat_map_cong)
  have L: "range_loop (map (\<lambda>r. (t, Item r)) xs @ [(t, Close)]) no_results = Some (t, Fold xs)"
    using range_loop_items [of "map (\<lambda>r. (t, r)) xs" "[(t, Close)]" no_results]
    by (simp add: Fold_def comp_def)
  from S T E R L show ?thesis
    by (metis mset_eq_setD)
qed

text \<open>
  Claim C7 at a success of GitHub and an error of Reddit, in both orders.
\<close>

theorem Fold_order_insensitive_witness:
  "mset [NewFetchResult ''github'', (NewFetchResult ''reddit'')\<lparr>fr_Error := Some ''boom''\<rparr>]
     = mset [(NewFetchResult ''reddit'')\<lparr>fr_Error := Some ''boom''\<rparr>, NewFetchResult ''github'']
   \<and> set (platformsSuccess (Fold [NewFetchResult ''github'',
            (NewFetchResult ''reddit'')\<lparr>fr_Error := Some ''boom''\<rparr>]))
     = set (platformsSuccess (Fold [(NewFetchResult ''reddit'')\<lparr>fr_Error := Some ''boom''\<rparr>,
            NewFetchResult ''github'']))
   \<and> platformsError (Fold [NewFetchResult ''github'',
            (NewFetchResult ''reddit'')\<lparr>fr_Error := Some ''boom''\<rparr>]) = [''reddit'']"
proof -
  let ?a = "NewFetchResult ''github''"
  let ?b = "(NewFetchResult ''reddit'')\<lparr>fr_Error := Some ''boom''\<rparr>"
  have perm: "mset [?a, ?b] = mset [?b, ?a]" by simp
  have run: "platformsError (Fold [?a, ?b]) = [''reddit'']"
    by (simp add: Fold_def collect_def NewFetchResult_def no_results_def)
  from Fold_order_insensitive [OF perm, of 0] perm run show ?thesis by blast
qed

section \<open>The partition of the platforms\<close>

lemma NewSearchHandler_Name:
  "fetchers (NewSearchHandler cfg) platform = Some fetcher \<Longrightarrow> Name fetcher = platform"
  by (auto simp: NewSearchHandler_def split: if_splits)

lemma dom_NewSearchHandler:
  "dom (fetchers (NewSearchHandler cfg)) = {''github'', ''stackoverflow'', ''reddit''}"
  by (auto simp: NewSearchHandler_def split: if_splits)

lemma names_launch:
  assumes "\<And>platform fetcher. reg platform = Some fetcher \<Longrightarrow> Name fetcher = platform"
  shows "map (\<lambda>tk. Name (t_fetcher tk)) (launch reg query maxResults platforms)
           = filter (\<lambda>platform. reg platform \<noteq> None) platforms"
  by (induction platforms) (auto simp: assms split: option.splits)

lemma names_fan_out:
  "map (\<lambda>tk. Name (t_fetcher tk)) (fan_out (NewSearchHandler cfg) req)
     = filter (\<lambda>platform. fetchers (NewSearchHandler cfg) platform \<noteq> None) (platforms_of req)"
  unfolding fan_out_def by (rule names_launch) (rule NewSearchHandler_Name)

lemma distinct_platforms_of: "distinct (Platforms req) \<Longrightarrow> distinct (platforms_of req)"
  by (simp add: platforms_of_def)

lemma distinct_names_fan_out:
  "distinct (Platforms req)
     \<Longrightarrow> distinct (map (\<lambda>tk. Name (t_fetcher tk)) (fan_out (NewSearchHandler cfg) req))"
  by (simp add: names_fan_out distinct_platforms_of)

lemma distinct_mset_sum3:
  assumes "mset xs + mset ys + mset zs = mset us" and "distinct us"
  shows "set xs \<inter> set ys = {} \<and> set xs \<inter> set zs = {} \<and> set ys \<inter> set zs = {}
         \<and> distinct xs \<and> distinct ys \<and> distinct zs"
proof -
  have "mset (xs @ ys @ zs) = mset us" using assms(1) by (simp add: ac_simps)
  then have "distinct (xs @ ys @ zs)" using assms(2) by (metis mset_eq_imp_distinct_iff)
  then show ?thesis by auto
qed

text \<open>
  Claim C3, as the code has it. When \<open>Search\<close> returns, the names in
  \<open>PlatformsSuccess\<close>, \<open>PlatformsTimeout\<close> and \<open>PlatformsError\<close> are the names of the
  launched providers, and every received value has put its provider's name into exactly
  one of the three lists: as multisets, the three lists together are the names of the
  launched tasks. When the request names no platform twice, no name is in two of the
  lists, nor twice in one.
\<close>

theorem Search_partition:
  assumes "Search (NewSearchHandler cfg) ctx req w = Some (Inr resp)"
  shows "set (PlatformsSuccess resp) \<union> set (PlatformsTimeout resp) \<union> set (PlatformsError resp)
           = set (map (\<lambda>tk. Name (t_fetcher tk)) (fan_out (NewSearchHandler cfg) req))
       \<and> mset (PlatformsSuccess resp) + mset (PlatformsTimeout resp) + mset (PlatformsError resp)
           = mset (map (\<lambda>tk. Name (t_fetcher tk)) (fan_out (NewSearchHandler cfg) req))
       \<and> (distinct (Platforms req) \<longrightarrow>
             set (PlatformsSuccess resp) \<inter> set (PlatformsTimeout resp) = {}
           \<and> set (PlatformsSuccess resp) \<inter> set (PlatformsError resp) = {}
           \<and> set (PlatformsTimeout resp) \<inter> set (PlatformsError resp) = {}
           \<and> distinct (PlatformsSuccess resp) \<and> distinct (PlatformsTimeout resp)
           \<and> distinct (PlatformsError resp))"
proof -
  let ?names = "map (\<lambda>tk. Name (t_fetcher tk)) (fan_out (NewSearchHandler cfg) req)"
  have m: "mset (PlatformsSuccess resp) + mset (PlatformsTimeout resp) + mset (PlatformsError resp)
             = mset ?names"
    using assms by (rule mset_Search_platforms)
  then have "set_mset (mset (PlatformsSuccess resp) + mset (PlatformsTimeout resp)
               + mset (PlatformsError resp)) = set_mset (mset ?names)"
    by simp
  then have s: "set (PlatformsSuccess resp) \<union> set (PlatformsTimeout resp)
                  \<union> set (PlatformsError resp) = set ?names"
    by simp
  have d: "set (PlatformsSuccess resp) \<inter> set (PlatformsTimeout resp) = {}
           \<and> set (PlatformsSuccess resp) \<inter> set (PlatformsError resp) = {}
           \<and> set (PlatformsTimeout resp) \<inter> set (PlatformsError resp) = {}
           \<and> distinct (PlatformsSuccess resp) \<and> distinct (PlatformsTimeout resp)
           \<and> distinct (PlatformsError resp)"
    if "distinct (Platforms req)"
    using m distinct_names_fan_out [OF that] by (rule distinct_mset_sum3)
  from s m d show ?thesis by blast
qed

text \<open>
  Claim C3 as amended, at a request for Reddit and GitHub where Reddit times out and
  GitHub succeeds.
\<close>

theorem Search_partition_witness:
  "Search (NewSearchHandler example_config) Background
      \<lparr>Query = ''go'', MaxResults = 5, Platforms = [''reddit'', ''github'']\<rparr>
      (http_world (\<lambda>i f q m. if i = 0 then NoAnswer else Completes 120 [] None))
     = Some (Inr \<lparr>Results = [], TotalCount = 0, PlatformsSuccess = [''github''],
                  PlatformsTimeout = [''reddit''], PlatformsError = [],
                  Metadata = \<lparr>ResponseTimeMs = 400, PlatformsQueried = 2\<rparr>\<rparr>)
   \<and> distinct [''reddit'', ''github'']
   \<and> set [''github''] \<inter> set [''reddit''] = {}"
proof -
  let ?req = "\<lparr>Query = ''go'', MaxResults = 5, Platforms = [''reddit'', ''github'']\<rparr>"
  let ?w = "http_world (\<lambda>i f q m. if i = (0::nat) then NoAnswer else Completes 120 [] None)"
  let ?resp = "\<lparr>Results = [], TotalCount = 0, PlatformsSuccess = [''github''],
                  PlatformsTimeout = [''reddit''], PlatformsError = [],
                  Metadata = \<lparr>ResponseTimeMs = 400, PlatformsQueried = 2\<rparr>\<rparr>"
  have run: "Search (NewSearchHandler example_config) Background ?req ?w = Some (Inr ?resp)"
    by (simp add: eval_defs)
  have d: "distinct (Platforms ?req)" by simp
  from Search_partition [OF run] d
  have "set (PlatformsSuccess ?resp) \<inter> set (PlatformsTimeout ?resp) = {}" by blast
  with run show ?thesis by simp
qed

text \<open>
  Claim C3 as stated fails. A request that names \<open>github\<close> twice passes validation and
  launches two tasks for the same provider; when one succeeds and the other fails,
  \<open>github\<close> is in \<open>PlatformsSuccess\<close> and in \<open>PlatformsError\<close>.
\<close>

theorem duplicate_platform_in_two_lists_counterexample:
  "validateSearchRequest \<lparr>Query = ''go'', MaxResults = 5, Platforms = [''github'', ''github'']\<rparr>
     = None
   \<and> snd (FederatedSearch (NewServer example_config) Background
            \<lparr>Query = ''go'', MaxResults = 5, Platforms = [''github'', ''github'']\<rparr>
            (http_world (\<lambda>i f q m. if i = 0 then Completes 120 [] None
               else Completes 90 [] (Some ''GitHub API error: status=403, body=rate limit exceeded''))))
       = Some (Inr \<lparr>Results = [], TotalCount = 0, PlatformsSuccess = [''github''],
                    PlatformsTimeout = [], PlatformsError = [''github''],
                    Metadata = \<lparr>ResponseTimeMs = 120, PlatformsQueried = 2\<rparr>\<rparr>)
   \<and> set [''github''] \<inter> set [''github''] \<noteq> ({} :: string set)"
  by (simp add: eval_defs FederatedSearch_def NewServer_def searchCtx_def validateSearchRequest_def
        validPlatforms_def lookup_bool_def)

section \<open>Provider failures\<close>

lemma failed_send:
  assumes "Fetch w (task_ctx h ctx) i tk = Returns t rs (Some e) c"
  shows "\<exists>r. fetchFromPlatform h w ctx i tk = Some (t, r) \<and> fr_Error r \<noteq> None"
  using assms by (simp add: fetchFromPlatform_def NewFetchResult_def Let_def)

lemma arrivals_from_sends:
  assumes "x \<in> set (arrivals (sends h w ctx tasks))"
  shows "\<exists>i<length tasks. fetchFromPlatform h w ctx i (tasks ! i) = Some x"
  using assms by (simp add: set_arrivals Some_in_sends)

text \<open>
  Claim C5. \<open>Search\<close> never returns an error, and \<open>FederatedSearch\<close> returns none for a
  request that passes validation. When every launched task fails, \<open>Search\<close> returns a
  response with no results, \<open>TotalCount = 0\<close>, an empty \<open>PlatformsSuccess\<close>, and every
  launched provider in \<open>PlatformsTimeout\<close> or \<open>PlatformsError\<close>.
\<close>

theorem provider_failures_do_not_propagate:
  "(\<forall>e. Search h ctx req w \<noteq> Some (Inl e))
   \<and> (validateSearchRequest req = None \<longrightarrow>
         (\<forall>e. snd (FederatedSearch s ctx req w) \<noteq> Some (Inl e)))
   \<and> ((\<forall>i<length (fan_out h req). \<exists>t rs e c. Fetch w (task_ctx h ctx) i (fan_out h req ! i) = Returns t rs (Some e) c)
        \<longrightarrow> (\<exists>resp. Search h ctx req w = Some (Inr resp)
               \<and> Results resp = [] \<and> TotalCount resp = 0 \<and> PlatformsSuccess resp = []
               \<and> mset (PlatformsTimeout resp) + mset (PlatformsError resp)
                   = mset (map (\<lambda>tk. Name (t_fetcher tk)) (fan_out h req))))"
proof (intro conjI impI allI)
  fix e show "Search h ctx req w \<noteq> Some (Inl e)"
    by (simp add: Search_def split: option.splits prod.splits)
next
  fix e assume "validateSearchRequest req = None"
  then show "snd (FederatedSearch s ctx req w) \<noteq> Some (Inl e)"
    by (simp add: FederatedSearch_def Search_def split: option.splits prod.splits)
next
  let ?tasks = "fan_out h req"
  let ?rs = "map snd (arrivals (sends h w ctx ?tasks))"
  assume fail: "\<forall>i<length ?tasks. \<exists>t rs e c. Fetch w (task_ctx h ctx) i (?tasks ! i) = Returns t rs (Some e) c"
  have all: "\<forall>i<length ?tasks. returns_at h w ctx i (?tasks ! i) \<noteq> None"
  proof (intro allI impI)
    fix i assume "i < length ?tasks"
    with fail obtain t rs e c where "Fetch w (task_ctx h ctx) i (?tasks ! i) = Returns t rs (Some e) c" by blast
    from failed_send [OF this] show "returns_at h w ctx i (?tasks ! i) \<noteq> None"
      by (auto simp: returns_at_def)
  qed
  have err: "fr_Error r \<noteq> None" if "r \<in> set ?rs" for r
  proof -
    from that obtain t where "(t, r) \<in> set (arrivals (sends h w ctx ?tasks))" by auto
    from arrivals_from_sends [OF this] obtain i
      where i: "i < length ?tasks" and s: "fetchFromPlatform h w ctx i (?tasks ! i) = Some (t, r)"
      by blast
    from fail i obtain t' rs e c where "Fetch w (task_ctx h ctx) i (?tasks ! i) = Returns t' rs (Some e) c"
      by blast
    from failed_send [OF this] s show ?thesis by auto
  qed
  then have none: "filter (\<lambda>r. fr_Error r = None) ?rs = []"
    by (simp add: filter_empty_conv)
  define resp where "resp =
     \<lparr>Results = allResults (Fold ?rs),
      TotalCount = word_of_nat (length (allResults (Fold ?rs))),
      PlatformsSuccess = platformsSuccess (Fold ?rs),
      PlatformsTimeout = platformsTimeout (Fold ?rs),
      PlatformsError = platformsError (Fold ?rs),
      Metadata =
        \<lparr>ResponseTimeMs = word_of_nat (foldr max (map fst (arrivals (sends h w ctx ?tasks))) 0),
         PlatformsQueried = word_of_nat (length (platforms_of req))\<rparr>\<rparr>"
  have run: "Search h ctx req w = Some (Inr resp)"
    using all by (simp add: Search_eq resp_def)
  have R: "Results resp = []" and C: "TotalCount resp = 0" and S: "PlatformsSuccess resp = []"
    by (simp_all add: resp_def Fold_allResults Fold_platformsSuccess none)
  have "mset (PlatformsSuccess resp) + mset (PlatformsTimeout resp) + mset (PlatformsError resp)
          = mset (map (\<lambda>tk. Name (t_fetcher tk)) ?tasks)"
    using run by (rule mset_Search_platforms)
  with S have M: "mset (PlatformsTimeout resp) + mset (PlatformsError resp)
          = mset (map (\<lambda>tk. Name (t_fetcher tk)) ?tasks)"
    by simp
  from run R C S M
  show "\<exists>resp. Search h ctx req w = Some (Inr resp)
               \<and> Results resp = [] \<and> TotalCount resp = 0 \<and> PlatformsSuccess resp = []
               \<and> mset (PlatformsTimeout resp) + mset (PlatformsError resp)
                   = mset (map (\<lambda>tk. Name (t_fetcher tk)) ?tasks)"
    by blast
qed

text \<open>
  Claim C5 at the default platforms, where GitHub times out and the other two fail.
\<close>

theorem provider_failures_do_not_propagate_witness:
  "validateSearchRequest \<lparr>Query = ''go'', MaxResults = 5, Platforms = []\<rparr> = None
   \<and> snd (FederatedSearch (NewServer example_config) Background
            \<lparr>Query = ''go'', MaxResults = 5, Platforms = []\<rparr>
            (http_world (\<lambda>i f q m. if i = 0 then NoAnswer
               else Completes 150 [] (Some ''status=503''))))
       = Some (Inr \<lparr>Results = [], TotalCount = 0, PlatformsSuccess = [],
                    PlatformsTimeout = [''github''],
                    PlatformsError = [''stackoverflow'', ''reddit''],
                    Metadata = \<lparr>ResponseTimeMs = 400, PlatformsQueried = 3\<rparr>\<rparr>)"
proof -
  let ?req = "\<lparr>Query = ''go'', MaxResults = 5, Platforms = []\<rparr>"
  let ?w = "http_world (\<lambda>i f q m. if i = (0::nat) then NoAnswer
               else Completes 150 [] (Some ''status=503''))"
  have v: "validateSearchRequest ?req = None"
    by (simp add: validateSearchRequest_def validPlatforms_def lookup_bool_def)
  have run: "snd (FederatedSearch (NewServer example_config) Background ?req ?w)
       = Some (Inr \<lparr>Results = [], TotalCount = 0, PlatformsSuccess = [],
                    PlatformsTimeout = [''github''],
                    PlatformsError = [''stackoverflow'', ''reddit''],
                    Metadata = \<lparr>ResponseTimeMs = 400, PlatformsQueried = 3\<rparr>\<rparr>)"
    by (simp add: eval_defs FederatedSearch_def NewServer_def searchCtx_def v)
  from provider_failures_do_not_propagate
         [of "NewSearchHandler example_config" Background ?req ?w "NewServer example_config"] v run
  show ?thesis by blast
qed

section \<open>Request validation\<close>

lemma length_concat_replicate: "length (concat (replicate n xs)) = n * length xs"
  by (induction n) simp_all

lemma characters_concat_replicate:
  "characters (concat (replicate n xs)) = n * characters xs"
  by (induction n) (simp_all add: characters_def)

text \<open>
  Claim C6 fails on the code for a query with characters outside ASCII. The query of 251
  times the letter e with acute accent (U+00E9, two bytes \<open>C3 A9\<close> in UTF-8) has 251
  characters and 502 bytes; \<open>len(req.Query) > 500\<close> compares bytes, and the request is
  rejected as "query too long (max 500 characters)", with no task launched.
\<close>

theorem validateSearchRequest_counts_bytes:
  "characters (concat (replicate 251 [CHR 0xC3, CHR 0xA9])) = 251
   \<and> length (concat (replicate 251 [CHR 0xC3, CHR 0xA9])) = 502
   \<and> validateSearchRequest
        \<lparr>Query = concat (replicate 251 [CHR 0xC3, CHR 0xA9]), MaxResults = 5, Platforms = []\<rparr>
       = Some (Status InvalidArgument ''query too long (max 500 characters)'')
   \<and> FederatedSearch (NewServer example_config) ctx
        \<lparr>Query = concat (replicate 251 [CHR 0xC3, CHR 0xA9]), MaxResults = 5, Platforms = []\<rparr> w
       = ([], Some (Inl (Status InvalidArgument ''query too long (max 500 characters)'')))"
proof -
  let ?q = "concat (replicate 251 [CHR 0xC3, CHR 0xA9])"
  have c: "characters ?q = 251"
    by (simp add: characters_concat_replicate) (simp add: characters_def utf8_continuation_def)
  have l: "length ?q = 502"
    by (simp add: length_concat_replicate)
  have ne: "?q \<noteq> []"
    using l by auto
  have v: "validateSearchRequest \<lparr>Query = ?q, MaxResults = 5, Platforms = []\<rparr>
       = Some (Status InvalidArgument ''query too long (max 500 characters)'')"
    unfolding validateSearchRequest_def using l ne by simp
  have f: "FederatedSearch (NewServer example_config) ctx
        \<lparr>Query = ?q, MaxResults = 5, Platforms = []\<rparr> w
       = ([], Some (Inl (Status InvalidArgument ''query too long (max 500 characters)'')))"
    by (simp add: FederatedSearch_def v)
  from c l v f show ?thesis by blast
qed

lemma validateSearchRequest_rejects_iff:
  "validateSearchRequest req \<noteq> None \<longleftrightarrow>
     Query req = [] \<or> 500 < length (Query req)
     \<or> sint (MaxResults req) < 0 \<or> 100 < sint (MaxResults req)
     \<or> (\<exists>platform\<in>set (Platforms req). platform \<notin> {''github'', ''stackoverflow'', ''reddit''})"
proof -
  have "lookup_bool validPlatforms p \<longleftrightarrow> p \<in> {''github'', ''stackoverflow'', ''reddit''}" for p
    by (simp add: lookup_bool_def validPlatforms_def)
  then have "find (\<lambda>platform. \<not> lookup_bool validPlatforms platform) (Platforms req) \<noteq> None
      \<longleftrightarrow> (\<exists>platform\<in>set (Platforms req). platform \<notin> {''github'', ''stackoverflow'', ''reddit''})"
    by (auto simp: find_None_iff)
  then show ?thesis
    by (auto simp: validateSearchRequest_def split: option.splits)
qed

lemma FederatedSearch_rejected:
  "validateSearchRequest req = Some err \<Longrightarrow> FederatedSearch s ctx req w = ([], Some (Inl err))"
  by (simp add: FederatedSearch_def)

text \<open>
  What \<open>validateSearchRequest\<close> checks, in bytes: a request is rejected exactly when its
  query is empty or longer than 500 bytes, \<open>MaxResults\<close> is outside \<open>[0,100]\<close>, or a
  requested platform is not one of the three known names; a rejected request launches
  no task and \<open>FederatedSearch\<close> returns the error.
\<close>

theorem request_validation:
  "(validateSearchRequest req \<noteq> None \<longleftrightarrow>
      Query req = [] \<or> 500 < length (Query req)
      \<or> sint (MaxResults req) < 0 \<or> 100 < sint (MaxResults req)
      \<or> (\<exists>platform\<in>set (Platforms req). platform \<notin> {''github'', ''stackoverflow'', ''reddit''}))
   \<and> (fst (FederatedSearch s ctx req w) = [] \<and> (\<exists>err. snd (FederatedSearch s ctx req w) = Some (Inl err))
        \<or> validateSearchRequest req = None)"
proof -
  have "fst (FederatedSearch s ctx req w) = [] \<and> (\<exists>err. snd (FederatedSearch s ctx req w) = Some (Inl err))"
    if "validateSearchRequest req \<noteq> None"
    using that by (auto simp: FederatedSearch_rejected)
  then show ?thesis
    using validateSearchRequest_rejects_iff [of req] by blast
qed

section \<open>The number of platforms queried\<close>

lemma Search_PlatformsQueried:
  "Search h ctx req w = Some (Inr resp) \<Longrightarrow>
     PlatformsQueried (Metadata resp) = word_of_nat (length (platforms_of req))"
  by (auto simp: Search_def split: option.splits)

lemma length_launch:
  "length (launch reg query maxResults platforms)
     = length (filter (\<lambda>platform. reg platform \<noteq> None) platforms)"
  by (induction platforms) (auto split: option.splits)

lemma fan_out_all_known:
  "\<forall>platform\<in>set platforms. reg platform \<noteq> None
     \<Longrightarrow> length (launch reg query maxResults platforms) = length platforms"
  by (induction platforms) (auto split: option.splits)

lemma validated_platforms_known:
  assumes "validateSearchRequest req = None"
  shows "\<forall>platform\<in>set (platforms_of req). fetchers (NewSearchHandler cfg) platform \<noteq> None"
proof -
  have "validateSearchRequest req \<noteq> None \<longleftrightarrow>
     Query req = [] \<or> 500 < length (Query req)
     \<or> sint (MaxResults req) < 0 \<or> 100 < sint (MaxResults req)
     \<or> (\<exists>platform\<in>set (Platforms req). platform \<notin> {''github'', ''stackoverflow'', ''reddit''})"
    by (rule validateSearchRequest_rejects_iff)
  with assms have "\<forall>platform\<in>set (Platforms req). platform \<in> {''github'', ''stackoverflow'', ''reddit''}"
    by blast
  then have "\<forall>platform\<in>set (platforms_of req). platform \<in> {''github'', ''stackoverflow'', ''reddit''}"
    by (simp add: platforms_of_def)
  then show ?thesis
    unfolding dom_NewSearchHandler [of cfg, symmetric] by (simp add: dom_def)
qed

text \<open>
  Claim C2, as the code has it. When every name of the effective platform list is a key
  of the registry, \<open>PlatformsQueried\<close> of the response is the number of launched tasks
  (as an \<open>int32\<close>). This is so for every request that passes
  \<open>validateSearchRequest\<close>, with the registry that \<open>NewSearchHandler\<close> builds.
\<close>

theorem PlatformsQueried_counts_dispatched:
  assumes "Search h ctx req w = Some (Inr resp)"
  shows "((\<forall>platform\<in>set (platforms_of req). fetchers h platform \<noteq> None) \<longrightarrow>
            PlatformsQueried (Metadata resp) = word_of_nat (length (fan_out h req)))
       \<and> (validateSearchRequest req = None \<and> h = NewSearchHandler cfg \<longrightarrow>
            PlatformsQueried (Metadata resp) = word_of_nat (length (fan_out h req)))"
proof -
  have q: "PlatformsQueried (Metadata resp) = word_of_nat (length (platforms_of req))"
    using assms by (rule Search_PlatformsQueried)
  have a: "PlatformsQueried (Metadata resp) = word_of_nat (length (fan_out h req))"
    if "\<forall>platform\<in>set (platforms_of req). fetchers h platform \<noteq> None"
    using that q by (simp add: fan_out_def fan_out_all_known)
  have b: "PlatformsQueried (Metadata resp) = word_of_nat (length (fan_out h req))"
    if "validateSearchRequest req = None \<and> h = NewSearchHandler cfg"
    using that a validated_platforms_known [of req cfg] by blast
  from a b show ?thesis by blast
qed

text \<open>
  Claim C2 as amended, at a valid request for GitHub and Reddit: two tasks,
  \<open>PlatformsQueried = 2\<close>.
\<close>

theorem PlatformsQueried_counts_dispatched_witness:
  "validateSearchRequest \<lparr>Query = ''go'', MaxResults = 5, Platforms = [''github'', ''reddit'']\<rparr>
     = None
   \<and> Search (NewSearchHandler example_config) Background
        \<lparr>Query = ''go'', MaxResults = 5, Platforms = [''github'', ''reddit'']\<rparr>
        (http_world (\<lambda>i f q m. Completes 120 [] None))
      = Some (Inr \<lparr>Results = [], TotalCount = 0, PlatformsSuccess = [''github'', ''reddit''],
                   PlatformsTimeout = [], PlatformsError = [],
                   Metadata = \<lparr>ResponseTimeMs = 120, PlatformsQueried = 2\<rparr>\<rparr>)
   \<and> (2 :: 32 word) = word_of_nat (length (fan_out (NewSearchHandler example_config)
        \<lparr>Query = ''go'', MaxResults = 5, Platforms = [''github'', ''reddit'']\<rparr>))"
proof -
  let ?req = "\<lparr>Query = ''go'', MaxResults = 5, Platforms = [''github'', ''reddit'']\<rparr>"
  let ?resp = "\<lparr>Results = [], TotalCount = 0, PlatformsSuccess = [''github'', ''reddit''],
                   PlatformsTimeout = [], PlatformsError = [],
                   Metadata = \<lparr>ResponseTimeMs = 120, PlatformsQueried = 2\<rparr>\<rparr>"
  have v: "validateSearchRequest ?req = None"
    by (simp add: validateSearchRequest_def validPlatforms_def lookup_bool_def)
  have run: "Search (NewSearchHandler example_config) Background ?req
        (http_world (\<lambda>i f q m. Completes 120 [] None))
      = Some (Inr ?resp)"
    by (simp add: eval_defs)
  from PlatformsQueried_counts_dispatched [OF run, of example_config] v
  have "PlatformsQueried (Metadata ?resp)
          = word_of_nat (length (fan_out (NewSearchHandler example_config) ?req))"
    by blast
  with v run show ?thesis by simp
qed

text \<open>
  Claim C2 as stated fails. \<open>Search\<close> called with the platforms \<open>github\<close> and
  \<open>bitbucket\<close> skips \<open>bitbucket\<close> and launches one task, and the response says
  \<open>PlatformsQueried = 2\<close>: the field is \<open>len(platforms)\<close>, which counts the skipped name.
\<close>

theorem PlatformsQueried_counts_skipped_platform_counterexample:
  "Search (NewSearchHandler example_config) Background
      \<lparr>Query = ''go'', MaxResults = 5, Platforms = [''github'', ''bitbucket'']\<rparr>
      (http_world (\<lambda>i f q m. Completes 120 [] None))
    = Some (Inr \<lparr>Results = [], TotalCount = 0, PlatformsSuccess = [''github''],
                 PlatformsTimeout = [], PlatformsError = [],
                 Metadata = \<lparr>ResponseTimeMs = 120, PlatformsQueried = 2\<rparr>\<rparr>)
   \<and> fan_out (NewSearchHandler example_config)
        \<lparr>Query = ''go'', MaxResults = 5, Platforms = [''github'', ''bitbucket'']\<rparr>
      = [\<lparr>t_fetcher = GitHubFetcher [] ''https://api.github.com'', t_query = ''go'',
          t_maxResults = 5\<rparr>]"
  by (simp add: eval_defs)

section \<open>The default platforms\<close>

text \<open>
  Claim C8. For a request with an empty platform list the platforms queried are
  \<open>github\<close>, \<open>stackoverflow\<close>, \<open>reddit\<close>, which are exactly the keys of the registry that
  \<open>NewSearchHandler\<close> builds, and one task is launched for each of them, with the
  fetcher registered under that name.
\<close>

theorem empty_platform_list_queries_registry:
  "Platforms req = [] \<Longrightarrow>
     platforms_of req = [''github'', ''stackoverflow'', ''reddit'']
     \<and> set (platforms_of req) = dom (fetchers (NewSearchHandler cfg))
     \<and> map (\<lambda>tk. Name (t_fetcher tk)) (fan_out (NewSearchHandler cfg) req)
         = [''github'', ''stackoverflow'', ''reddit'']
     \<and> map (\<lambda>tk. Some (t_fetcher tk)) (fan_out (NewSearchHandler cfg) req)
         = map (fetchers (NewSearchHandler cfg)) [''github'', ''stackoverflow'', ''reddit'']
     \<and> distinct (map (\<lambda>tk. Name (t_fetcher tk)) (fan_out (NewSearchHandler cfg) req))
     \<and> set (map (\<lambda>tk. Name (t_fetcher tk)) (fan_out (NewSearchHandler cfg) req))
         = dom (fetchers (NewSearchHandler cfg))"
proof -
  assume e: "Platforms req = []"
  then have p: "platforms_of req = [''github'', ''stackoverflow'', ''reddit'']"
    by (simp add: platforms_of_def)
  have d: "dom (fetchers (NewSearchHandler cfg)) = {''github'', ''stackoverflow'', ''reddit''}"
    by (rule dom_NewSearchHandler)
  have n: "map (\<lambda>tk. Name (t_fetcher tk)) (fan_out (NewSearchHandler cfg) req)
         = [''github'', ''stackoverflow'', ''reddit'']"
    by (simp add: fan_out_def p NewSearchHandler_def)
  have f: "map (\<lambda>tk. Some (t_fetcher tk)) (fan_out (NewSearchHandler cfg) req)
         = map (fetchers (NewSearchHandler cfg)) [''github'', ''stackoverflow'', ''reddit'']"
    by (simp add: fan_out_def p NewSearchHandler_def)
  show ?thesis
    unfolding n f [symmetric] d p by auto
qed

text \<open>
  Claim C8 at the example configuration.
\<close>

theorem empty_platform_list_queries_registry_witness:
  "Platforms \<lparr>Query = ''go'', MaxResults = 0, Platforms = []\<rparr> = []
   \<and> fan_out (NewSearchHandler example_config) \<lparr>Query = ''go'', MaxResults = 0, Platforms = []\<rparr>
     = [\<lparr>t_fetcher = GitHubFetcher [] ''https://api.github.com'', t_query = ''go'',
          t_maxResults = 20\<rparr>,
        \<lparr>t_fetcher = StackOverflowFetcher [] ''https://api.stackexchange.com/2.3'',
          t_query = ''go'', t_maxResults = 20\<rparr>,
        \<lparr>t_fetcher = RedditFetcher [] [] ''FederatedSearchEngine/1.0'' ''https://oauth.reddit.com'',
          t_query = ''go'', t_maxResults = 20\<rparr>]
   \<and> dom (fetchers (NewSearchHandler example_config)) = {''github'', ''stackoverflow'', ''reddit''}"
proof -
  let ?req = "\<lparr>Query = ''go'', MaxResults = 0, Platforms = []\<rparr>"
  have e: "Platforms ?req = []" by simp
  have run: "fan_out (NewSearchHandler example_config) ?req
     = [\<lparr>t_fetcher = GitHubFetcher [] ''https://api.github.com'', t_query = ''go'',
          t_maxResults = 20\<rparr>,
        \<lparr>t_fetcher = StackOverflowFetcher [] ''https://api.stackexchange.com/2.3'',
          t_query = ''go'', t_maxResults = 20\<rparr>,
        \<lparr>t_fetcher = RedditFetcher [] [] ''FederatedSearchEngine/1.0'' ''https://oauth.reddit.com'',
          t_query = ''go'', t_maxResults = 20\<rparr>]"
    by (simp add: eval_defs)
  from empty_platform_list_queries_registry [OF e, of example_config]
  have a: "platforms_of ?req = [''github'', ''stackoverflow'', ''reddit'']"
    and b: "set (platforms_of ?req) = dom (fetchers (NewSearchHandler example_config))"
    by blast+
  have "dom (fetchers (NewSearchHandler example_config)) = {''github'', ''stackoverflow'', ''reddit''}"
    unfolding b [symmetric] a by auto
  with e run show ?thesis by blast
qed

section \<open>The result cap\<close>

lemma sint_scast_32_64: "sint (scast (x :: 32 word) :: 64 word) = sint x"
  by (rule sint_up_scast) (simp add: is_up)

lemma launch_args:
  "tk \<in> set (launch reg query maxResults platforms)
     \<Longrightarrow> t_query tk = query \<and> t_maxResults tk = maxResults"
  by (induction platforms) (auto split: option.splits)

text \<open>
  Claim C9. Every launched task is given the query of the request and, as
  \<open>maxResults\<close>, the request's \<open>MaxResults\<close> when that is in \<open>[1,100]\<close> and the configured
  \<open>MaxResultsPerPlatform\<close> otherwise; these are the arguments of its call of \<open>Fetch\<close>.
\<close>

theorem effective_result_cap:
  "\<forall>tk \<in> set (fan_out h req).
      t_query tk = Query req
      \<and> t_maxResults tk =
          (if 1 \<le> sint (MaxResults req) \<and> sint (MaxResults req) \<le> 100
           then scast (MaxResults req)
           else MaxResultsPerPlatform (Performance (config h)))
      \<and> (1 \<le> sint (MaxResults req) \<and> sint (MaxResults req) \<le> 100
           \<longrightarrow> sint (t_maxResults tk) = sint (MaxResults req))
      \<and> (\<forall>w ctx i. Fetch w ctx i tk = w ctx i (t_fetcher tk) (Query req) (t_maxResults tk))"
proof
  fix tk assume "tk \<in> set (fan_out h req)"
  then have a: "t_query tk = Query req" and b: "t_maxResults tk = maxResults_of h req"
    by (auto simp: fan_out_def dest: launch_args)
  have c: "maxResults_of h req =
          (if 1 \<le> sint (MaxResults req) \<and> sint (MaxResults req) \<le> 100
           then scast (MaxResults req)
           else MaxResultsPerPlatform (Performance (config h)))"
    by (auto simp: maxResults_of_def Let_def sint_scast_32_64)
  show "t_query tk = Query req
      \<and> t_maxResults tk =
          (if 1 \<le> sint (MaxResults req) \<and> sint (MaxResults req) \<le> 100
           then scast (MaxResults req)
           else MaxResultsPerPlatform (Performance (config h)))
      \<and> (1 \<le> sint (MaxResults req) \<and> sint (MaxResults req) \<le> 100
           \<longrightarrow> sint (t_maxResults tk) = sint (MaxResults req))
      \<and> (\<forall>w ctx i. Fetch w ctx i tk = w ctx i (t_fetcher tk) (Query req) (t_maxResults tk))"
    using a b c by (simp add: Fetch_def sint_scast_32_64)
qed

text \<open>
  Claim C9 at \<open>MaxResults\<close> 7, 0, -4 and 101 with the default cap 20.
\<close>

theorem effective_result_cap_witness:
  "map t_maxResults (fan_out (NewSearchHandler example_config)
       \<lparr>Query = ''go'', MaxResults = 7, Platforms = [''github'', ''reddit'']\<rparr>) = [7, 7]
   \<and> map t_maxResults (fan_out (NewSearchHandler example_config)
       \<lparr>Query = ''go'', MaxResults = 0, Platforms = [''github'']\<rparr>) = [20]
   \<and> map t_maxResults (fan_out (NewSearchHandler example_config)
       \<lparr>Query = ''go'', MaxResults = - 4, Platforms = [''github'']\<rparr>) = [20]
   \<and> map t_maxResults (fan_out (NewSearchHandler example_config)
       \<lparr>Query = ''go'', MaxResults = 101, Platforms = [''github'']\<rparr>) = [20]"
proof -
  let ?h = "NewSearchHandler example_config"
  let ?req = "\<lparr>Query = ''go'', MaxResults = 7, Platforms = [''github'', ''reddit'']\<rparr>"
  have tasks: "fan_out ?h ?req
     = [\<lparr>t_fetcher = GitHubFetcher [] ''https://api.github.com'', t_query = ''go'',
          t_maxResults = 7\<rparr>,
        \<lparr>t_fetcher = RedditFetcher [] [] ''FederatedSearchEngine/1.0'' ''https://oauth.reddit.com'',
          t_query = ''go'', t_maxResults = 7\<rparr>]"
    by (simp add: eval_defs)
  have "\<forall>tk \<in> set (fan_out ?h ?req). t_maxResults tk = 7"
    using effective_result_cap [of ?h ?req] by simp
  then have 1: "map t_maxResults (fan_out ?h ?req) = [7, 7]"
    by (simp add: tasks)
  have 2: "map t_maxResults (fan_out ?h
       \<lparr>Query = ''go'', MaxResults = 0, Platforms = [''github'']\<rparr>) = [20]"
    by (simp add: eval_defs)
  have 3: "map t_maxResults (fan_out ?h
       \<lparr>Query = ''go'', MaxResults = - 4, Platforms = [''github'']\<rparr>) = [20]"
    by (simp add: eval_defs)
  have 4: "map t_maxResults (fan_out ?h
       \<lparr>Query = ''go'', MaxResults = 101, Platforms = [''github'']\<rparr>) = [20]"
    by (simp add: eval_defs)
  from 1 2 3 4 show ?thesis by blast
qed

end
